theory Spec2Isabelle
  imports Main "HOL-Library.Code_Target_Nat"
begin

section \<open>JavaScript strings\<close>

text \<open>
  A JavaScript string is a sequence of UTF-16 code units; \<open>length\<close>, \<open>slice\<close>,
  \<open>charCodeAt\<close> and the regular expressions of the extension (none carries the \<open>u\<close> flag)
  all work on code units. A code unit is modelled by its numeric value, so the ellipsis
  U+2026 is the single unit 8230. \<open>js\<close> reads an ASCII literal of the source.
\<close>

type_synonym jsstring = "nat list"

definition js :: "string \<Rightarrow> jsstring" where
  "js s = map of_char s"

text \<open>
  The characters matched by \<open>\s\<close> and removed by \<open>String.prototype.trim\<close>
  (ECMAScript WhiteSpace and LineTerminator): TAB, LF, VT, FF, CR, SP, NBSP, U+1680,
  U+2000 to U+200A, U+2028, U+2029, U+202F, U+205F, U+3000 and U+FEFF.
\<close>

definition isWhiteSpace :: "nat \<Rightarrow> bool" where
  "isWhiteSpace c \<longleftrightarrow>
     c = 9 \<or> c = 10 \<or> c = 11 \<or> c = 12 \<or> c = 13 \<or> c = 32 \<or> c = 160 \<or> c = 5760 \<or>
     (8192 \<le> c \<and> c \<le> 8202) \<or> c = 8232 \<or> c = 8233 \<or> c = 8239 \<or> c = 8287 \<or>
     c = 12288 \<or> c = 65279"

definition trim :: "jsstring \<Rightarrow> jsstring" where
  "trim s = rev (dropWhile isWhiteSpace (rev (dropWhile isWhiteSpace s)))"

text \<open>
  \<open>s.replace(re, f)\<close> for a regular expression with the \<open>g\<close> flag. The expression is
  given by \<open>m\<close>, which tells for the text starting at the current position whether the
  expression matches there and how many code units the match takes; \<open>f\<close> maps the matched
  text to its replacement. The scan goes left to right, resumes after each match, and steps
  over one code unit after an empty match, as \<open>RegExp.prototype[Symbol.replace]\<close> does.
\<close>

function replaceAll ::
  "(jsstring \<Rightarrow> nat option) \<Rightarrow> (jsstring \<Rightarrow> jsstring) \<Rightarrow> jsstring \<Rightarrow> jsstring" where
  "replaceAll m f [] = (case m [] of None \<Rightarrow> [] | Some n \<Rightarrow> f [])"
| "replaceAll m f (c # cs) =
     (case m (c # cs) of
        None \<Rightarrow> c # replaceAll m f cs
      | Some n \<Rightarrow>
          if n = 0 then f [] @ c # replaceAll m f cs
          else f (take n (c # cs)) @ replaceAll m f (drop n (c # cs)))"
  by pat_completeness auto
termination
  by (relation "measure (\<lambda>(m, f, s). length s)") auto

text \<open>The expression \<open>/\s+/\<close> at a position: the longest run of white space, if not empty.\<close>

definition reWhiteRun :: "jsstring \<Rightarrow> nat option" where
  "reWhiteRun s =
     (let n = length (takeWhile isWhiteSpace s) in if n = 0 then None else Some n)"

text \<open>\<open>s.replace(/\s+/g, ' ')\<close>\<close>

definition collapseWhite :: "jsstring \<Rightarrow> jsstring" where
  "collapseWhite s = replaceAll reWhiteRun (\<lambda>_. [32]) s"

section \<open>Output sanitization\<close>

text \<open>
  \<open>sanitizeOneLine\<close> of \<open>src/contentScript.js\<close>:
  \<^verbatim>\<open>const one = s.replace(/\s+/g, ' ').trim();
  return one.length > 200 ? one.slice(0, 200).trim() + '\<dots>' : one;\<close>
  where the appended literal is the one-unit string U+2026.
\<close>

definition sanitizeOneLine :: "jsstring \<Rightarrow> jsstring" where
  "sanitizeOneLine s =
     (let one = trim (collapseWhite s)
      in if length one > 200 then trim (take 200 one) @ [8230] else one)"

text \<open>
  The copy of \<open>sanitizeOneLine\<close> in \<open>src/background.js\<close> differs in the appended literal,
  which is the empty string there.
\<close>

definition sanitizeOneLine_background :: "jsstring \<Rightarrow> jsstring" where
  "sanitizeOneLine_background s =
     (let one = trim (collapseWhite s)
      in if length one > 200 then trim (take 200 one) @ [] else one)"

text \<open>A text is single-spaced when its only white space is the space character and no two
  spaces are adjacent.\<close>

definition hasDoubleSpace :: "jsstring \<Rightarrow> bool" where
  "hasDoubleSpace s \<longleftrightarrow> (\<exists>xs ys. s = xs @ [32, 32] @ ys)"

definition singleSpaced :: "jsstring \<Rightarrow> bool" where
  "singleSpaced s \<longleftrightarrow> (\<forall>c \<in> set s. isWhiteSpace c \<longrightarrow> c = 32) \<and> \<not> hasDoubleSpace s"

definition trimmed :: "jsstring \<Rightarrow> bool" where
  "trimmed s \<longleftrightarrow> (s \<noteq> [] \<longrightarrow> \<not> isWhiteSpace (hd s) \<and> \<not> isWhiteSpace (last s))"

section \<open>Matching pieces of the regular expressions\<close>

text \<open>
  With the \<open>i\<close> flag and no \<open>u\<close> flag a pattern letter matches the two ASCII cases of that
  letter and nothing else (the canonicalisation of ECMAScript never maps a code unit
  above 127 to one below 128), so ignoring case is comparing after \<open>lowerAscii\<close>.
\<close>

definition lowerAscii :: "nat \<Rightarrow> nat" where
  "lowerAscii c = (if 65 \<le> c \<and> c \<le> 90 then c + 32 else c)"

definition startsWith :: "jsstring \<Rightarrow> jsstring \<Rightarrow> bool" where
  "startsWith p s \<longleftrightarrow> take (length p) s = p"

definition startsWithCI :: "jsstring \<Rightarrow> jsstring \<Rightarrow> bool" where
  "startsWithCI p s \<longleftrightarrow>
     length p \<le> length s \<and> map lowerAscii (take (length p) s) = map lowerAscii p"

text \<open>The least index at which \<open>p\<close> occurs in \<open>s\<close>, ignoring case.\<close>

fun indexOfCI :: "jsstring \<Rightarrow> jsstring \<Rightarrow> nat option" where
  "indexOfCI p [] = (if p = [] then Some 0 else None)"
| "indexOfCI p (c # cs) =
     (if startsWithCI p (c # cs) then Some 0 else map_option Suc (indexOfCI p cs))"

text \<open>The first alternative of an alternation that succeeds.\<close>

fun firstSome :: "('a \<Rightarrow> 'b option) \<Rightarrow> 'a list \<Rightarrow> 'b option" where
  "firstSome g [] = None"
| "firstSome g (x # xs) = (case g x of Some y \<Rightarrow> Some y | None \<Rightarrow> firstSome g xs)"

text \<open>
  \<open>/<script[\s\S]*?<\/script>/gi\<close> and \<open>/<style[\s\S]*?<\/style>/gi\<close> at a position: the
  opening text, then as little as possible up to the first closing text.
\<close>

definition reBlock :: "jsstring \<Rightarrow> jsstring \<Rightarrow> jsstring \<Rightarrow> nat option" where
  "reBlock opening closing s =
     (if startsWithCI opening s
      then (case indexOfCI closing (drop (length opening) s) of
              None \<Rightarrow> None
            | Some k \<Rightarrow> Some (length opening + k + length closing))
      else None)"

text \<open>
  \<open>/<\/(p|div|h[1-6]|li|ul|ol|section|article|header|footer|br)\s*>/gi\<close> at a position.
  No name of the alternation is a prefix of another, so at most one alternative can match.
\<close>

definition blockCloserNames :: "jsstring list" where
  "blockCloserNames =
     map js [''p'', ''div'', ''h1'', ''h2'', ''h3'', ''h4'', ''h5'', ''h6'', ''li'', ''ul'',
             ''ol'', ''section'', ''article'', ''header'', ''footer'', ''br'']"

definition reBlockCloser :: "jsstring \<Rightarrow> nat option" where
  "reBlockCloser s =
     (if startsWithCI (js ''</'') s
      then firstSome
             (\<lambda>name.
                let r = drop (2 + length name) s;
                    k = length (takeWhile isWhiteSpace r)
                in if startsWithCI name (drop 2 s) \<and> startsWith [62] (drop k r)
                   then Some (2 + length name + k + 1) else None)
             blockCloserNames
      else None)"

text \<open>\<open>/<[^>]+>/g\<close> at a position: \<open><\<close>, a non-empty run without \<open>>\<close>, then \<open>>\<close>.\<close>

definition reTag :: "jsstring \<Rightarrow> nat option" where
  "reTag s =
     (case s of
        [] \<Rightarrow> None
      | c # cs \<Rightarrow>
          let n = length (takeWhile (\<lambda>x. x \<noteq> 62) cs)
          in if c = 60 \<and> 0 < n \<and> n < length cs then Some (n + 2) else None)"

section \<open>HtmlTextNormalizer: \<open>htmlToText\<close>\<close>

text \<open>
  The entity table of \<open>htmlToText\<close> as the source file has it, in the order of the
  alternation \<open>/(&nbsp;|&|<|>|"|&#39;|')/g\<close>: \<open>'&nbsp;': ' '\<close>, \<open>'&': '&'\<close>, \<open>'<': '<'\<close>,
  \<open>'>': '>'\<close>, \<open>'"': '"'\<close>, \<open>'&#39;': "'"\<close>, \<open>"'": "'"\<close>.
\<close>

definition entities :: "(jsstring \<times> jsstring) list" where
  "entities =
     [(js ''&nbsp;'', [32]), ([38], [38]), ([60], [60]), ([62], [62]), ([34], [34]),
      (js ''&#39;'', [39]), ([39], [39])]"

definition reEntity :: "jsstring \<Rightarrow> nat option" where
  "reEntity s = firstSome (\<lambda>(k, v). if startsWith k s then Some (length k) else None) entities"

text \<open>\<open>m => entities[m] || m\<close>\<close>

definition decodeEntity :: "jsstring \<Rightarrow> jsstring" where
  "decodeEntity m = (case map_of entities m of None \<Rightarrow> m | Some v \<Rightarrow> if v = [] then m else v)"

definition htmlToText :: "jsstring \<Rightarrow> jsstring" where
  "htmlToText html =
     (if html = [] then []
      else
        let h1 = replaceAll (reBlock (js ''<script'') (js ''</script>'')) (\<lambda>_. [32]) html;
            h2 = replaceAll (reBlock (js ''<style'') (js ''</style>'')) (\<lambda>_. [32]) h1;
            h3 = replaceAll reBlockCloser (\<lambda>_. [10]) h2;
            h4 = replaceAll reTag (\<lambda>_. [32]) h3;
            h5 = replaceAll reEntity decodeEntity h4;
            h6 = trim (collapseWhite h5)
        in if length h6 > 20000 then take 20000 h6 else h6)"

text \<open>Names for the fourth and the fifth step of \<open>htmlToText\<close>.\<close>

definition stripped :: "jsstring \<Rightarrow> jsstring" where
  "stripped s = replaceAll reTag (\<lambda>_. [32]) s"

definition decoded :: "jsstring \<Rightarrow> jsstring" where
  "decoded s = replaceAll reEntity decodeEntity s"

text \<open>
  A text has a tag when the expression \<open>/<[^>]+>/\<close> matches somewhere in it: a \<open><\<close>, then
  one or more units other than \<open>>\<close>, then a \<open>>\<close>.
\<close>

definition hasTag :: "jsstring \<Rightarrow> bool" where
  "hasTag s \<longleftrightarrow> (\<exists>a m b. s = a @ [60] @ m @ [62] @ b \<and> m \<noteq> [] \<and> 62 \<notin> set m)"

section \<open>MainContentExtractor: \<open>extractMainText\<close>\<close>

text \<open>
  \<open>extractMainText\<close> works on the document object model of the browser, which is not
  code of the extension: the operations it calls are taken as a parameter. \<open>'d\<close> is a
  state of the parsed document (removing nodes yields a new state), \<open>'e\<close> an element.
  \<open>parseFromString\<close> is \<open>new DOMParser().parseFromString(html, 'text/html')\<close>, with
  \<open>None\<close> when it yields no document or throws; \<open>removeAll d sel\<close> is
  \<open>doc.querySelectorAll(sel).forEach(n => n.remove())\<close> and \<open>removeWithin d e sel\<close> the same
  below the element \<open>e\<close>; \<open>innerText\<close> and \<open>textContent\<close> are \<open>None\<close> where the property is
  undefined or null.
\<close>

record ('d, 'e) dom =
  parseFromString :: "jsstring \<Rightarrow> 'd option"
  removeAll :: "'d \<Rightarrow> jsstring \<Rightarrow> 'd"
  removeWithin :: "'d \<Rightarrow> 'e \<Rightarrow> jsstring \<Rightarrow> 'd"
  querySelector :: "'d \<Rightarrow> jsstring \<Rightarrow> 'e option"
  querySelectorAll :: "'d \<Rightarrow> jsstring \<Rightarrow> 'e list"
  querySelectorAllWithin :: "'d \<Rightarrow> 'e \<Rightarrow> jsstring \<Rightarrow> 'e list"
  innerText :: "'d \<Rightarrow> 'e \<Rightarrow> jsstring option"
  textContent :: "'d \<Rightarrow> 'e \<Rightarrow> jsstring option"

text \<open>\<open>a || b\<close> on texts: the first one that is defined and not empty.\<close>

definition orText :: "jsstring option \<Rightarrow> jsstring \<Rightarrow> jsstring" where
  "orText a b = (case a of None \<Rightarrow> b | Some t \<Rightarrow> if t = [] then b else t)"

text \<open>\<open>el.innerText || el.textContent || ''\<close>\<close>

definition elementText :: "('d, 'e) dom \<Rightarrow> 'd \<Rightarrow> 'e \<Rightarrow> jsstring" where
  "elementText api d el = orText (innerText api d el) (orText (textContent api d el) [])"

text \<open>The inner function \<open>push\<close>: append an element that is not null and not yet listed.\<close>

definition pushCandidate :: "'e list \<Rightarrow> 'e option \<Rightarrow> 'e list" where
  "pushCandidate candidates el =
     (case el of
        None \<Rightarrow> candidates
      | Some e \<Rightarrow> if e \<in> set candidates then candidates else candidates @ [e])"

definition hints :: "jsstring list" where
  "hints =
     map js [''.article-body'', ''.articleBody'', ''.post-content'', ''.entry-content'',
             ''.story-body'', ''.content__article-body'', ''.c-article-content'',
             ''#content'', ''#main'', ''.content'', ''.story'', ''.StoryBodyCompanionColumn'']"

text \<open>The selector \<open>[role="main"]\<close>.\<close>

definition roleMainSelector :: jsstring where
  "roleMainSelector = js ''[role='' @ [34] @ js ''main'' @ [34] @ js '']''"

text \<open>
  The selector \<open>aside,button,figure,figcaption,ul.share,div.share,div.ad,div.ads,
  div[class*="ad-"],div[id*="ad-"]\<close>.
\<close>

definition clutterSelector :: jsstring where
  "clutterSelector =
     js ''aside,button,figure,figcaption,ul.share,div.share,div.ad,div.ads,div[class*='' @ [34] @
     js ''ad-'' @ [34] @ js ''],div[id*='' @ [34] @ js ''ad-'' @ [34] @ js '']''"

text \<open>
  The inner function \<open>score\<close>. The link length is taken from the uncollapsed texts of the
  anchors, so the difference can be negative: the score is an integer.
\<close>

definition score :: "('d, 'e) dom \<Rightarrow> 'd \<Rightarrow> 'e \<Rightarrow> int" where
  "score api d el =
     (let text = trim (collapseWhite (elementText api d el));
          len = length text
      in if len < 200 then 0
         else
           let linkLen = sum_list (map (\<lambda>a. length (orText (innerText api d a) []))
                                       (querySelectorAllWithin api d el (js ''a'')));
               pCount = length (querySelectorAllWithin api d el (js ''p''))
           in (int len - int linkLen) + int pCount * 50)"

text \<open>One round of \<open>if (s > bestScore) { best = el; bestScore = s; }\<close> over a list.\<close>

definition pickBest ::
  "('d, 'e) dom \<Rightarrow> 'd \<Rightarrow> 'e option \<times> int \<Rightarrow> 'e list \<Rightarrow> 'e option \<times> int" where
  "pickBest api d start els =
     foldl (\<lambda>(best, bestScore) el.
              let s = score api d el in if s > bestScore then (Some el, s) else (best, bestScore))
           start els"

text \<open>
  \<open>extractMainText\<close>; the first argument is \<open>None\<close> where \<open>DOMParser\<close> is undefined.
\<close>

definition extractMainText :: "('d, 'e) dom option \<Rightarrow> jsstring \<Rightarrow> jsstring" where
  "extractMainText domParser html =
     (case domParser of
        None \<Rightarrow> []
      | Some api \<Rightarrow>
          (case parseFromString api html of
             None \<Rightarrow> []
           | Some doc0 \<Rightarrow>
               let doc = removeAll api doc0
                           (js ''script,noscript,style,svg,canvas,iframe,form,header,footer,nav'');
                   c1 = pushCandidate [] (querySelector api doc (js ''article''));
                   c2 = pushCandidate c1 (querySelector api doc (js ''main''));
                   c3 = foldl (\<lambda>c e. pushCandidate c (Some e)) c2
                          (querySelectorAll api doc roleMainSelector);
                   candidates =
                     foldl (\<lambda>c sel. foldl (\<lambda>c e. pushCandidate c (Some e)) c
                                        (querySelectorAll api doc sel))
                           c3 hints;
                   (best1, score1) = pickBest api doc (None, 0) candidates;
                   (best, bestScore) =
                     (if best1 = None
                      then pickBest api doc (best1, score1)
                             (querySelectorAll api doc (js ''article,main,section,div''))
                      else (best1, score1))
               in (case best of
                     None \<Rightarrow> []
                   | Some b \<Rightarrow>
                       let doc' = removeWithin api doc b clutterSelector;
                           output = trim (collapseWhite (elementText api doc' b))
                       in take 30000 output)))"

section \<open>The parse step of the pipeline\<close>

text \<open>
  \<open>tryParse\<close> of \<open>extractTextFromUrl\<close> in \<open>src/contentScript.js\<close>:
  \<^verbatim>\<open>const main = extractMainText(html);
  if (main && main.length >= 400) return main;
  return htmlToText(html);\<close>
\<close>

definition tryParse :: "('d, 'e) dom option \<Rightarrow> jsstring \<Rightarrow> jsstring" where
  "tryParse domParser html =
     (let main = extractMainText domParser html
      in if main \<noteq> [] \<and> length main \<ge> 400 then main else htmlToText html)"

section \<open>Regular expressions used as tests\<close>

text \<open>
  The regular expressions that the code only tests (\<open>re.test(s)\<close>) or searches
  (\<open>s.match(re)\<close>) are written as terms of \<open>rx\<close>. \<open>rxm r s\<close> lists what is left of \<open>s\<close>
  after each way of matching \<open>r\<close> at the start of \<open>s\<close>, in the order in which the
  backtracking matcher of ECMAScript tries them: the left alternative before the right, one
  more round of a greedy star before stopping, stopping before one more round of a lazy
  star. A round of a star that takes nothing is rejected, as in ECMAScript, so a star on
  \<open>s\<close> makes at most \<open>length s\<close> rounds.
\<close>

datatype rx =
    Chr "nat \<Rightarrow> bool"
  | Eps
  | AtEnd
  | Cat rx rx
  | Alt rx rx
  | Star rx
  | StarLazy rx

fun starIter :: "(jsstring \<Rightarrow> jsstring list) \<Rightarrow> bool \<Rightarrow> nat \<Rightarrow> jsstring \<Rightarrow> jsstring list" where
  "starIter f greedy 0 s = [s]"
| "starIter f greedy (Suc n) s =
     (let more = concat (map (\<lambda>t. if length t < length s then starIter f greedy n t else [])
                             (f s))
      in if greedy then more @ [s] else s # more)"

primrec rxm :: "rx \<Rightarrow> jsstring \<Rightarrow> jsstring list" where
  "rxm (Chr p) s = (case s of [] \<Rightarrow> [] | c # cs \<Rightarrow> if p c then [cs] else [])"
| "rxm Eps s = [s]"
| "rxm AtEnd s = (if s = [] then [s] else [])"
| "rxm (Cat a b) s = concat (map (rxm b) (rxm a s))"
| "rxm (Alt a b) s = rxm a s @ rxm b s"
| "rxm (Star a) s = starIter (rxm a) True (length s) s"
| "rxm (StarLazy a) s = starIter (rxm a) False (length s) s"

text \<open>\<open>re.test(s)\<close> for an expression without the \<open>g\<close> flag: a match at some position.\<close>

fun rxTest :: "rx \<Rightarrow> jsstring \<Rightarrow> bool" where
  "rxTest r [] = (rxm r [] \<noteq> [])"
| "rxTest r (c # cs) = (rxm r (c # cs) \<noteq> [] \<or> rxTest r cs)"

text \<open>Abbreviations of the pattern syntax.\<close>

definition ch :: "char \<Rightarrow> rx" where
  "ch c = Chr (\<lambda>x. x = of_char c)"

definition chCI :: "char \<Rightarrow> rx" where
  "chCI c = Chr (\<lambda>x. lowerAscii x = lowerAscii (of_char c))"

definition cats :: "rx list \<Rightarrow> rx" where
  "cats rs = foldr Cat rs Eps"

fun alts :: "rx list \<Rightarrow> rx" where
  "alts [] = Chr (\<lambda>_. False)"
| "alts [r] = r"
| "alts (r # rs) = Alt r (alts rs)"

definition lit :: "string \<Rightarrow> rx" where
  "lit s = cats (map ch s)"

definition litCI :: "string \<Rightarrow> rx" where
  "litCI s = cats (map chCI s)"

definition opt :: "rx \<Rightarrow> rx" where
  "opt r = Alt r Eps"

definition plus :: "rx \<Rightarrow> rx" where
  "plus r = Cat r (Star r)"

definition rep :: "nat \<Rightarrow> rx \<Rightarrow> rx" where
  "rep n r = cats (replicate n r)"

definition repMin :: "nat \<Rightarrow> rx \<Rightarrow> rx" where
  "repMin n r = Cat (rep n r) (Star r)"

definition digit :: rx where
  "digit = Chr (\<lambda>x. 48 \<le> x \<and> x \<le> 57)"

definition lowerLetter :: rx where
  "lowerLetter = Chr (\<lambda>x. 97 \<le> x \<and> x \<le> 122)"

definition letter :: rx where
  "letter = Chr (\<lambda>x. (97 \<le> x \<and> x \<le> 122) \<or> (65 \<le> x \<and> x \<le> 90))"

definition notSlash :: rx where
  "notSlash = Chr (\<lambda>x. x \<noteq> 47)"

definition wordsCI :: "string list \<Rightarrow> rx" where
  "wordsCI ws = alts (map litCI ws)"

section \<open>The network and the URL parser\<close>

text \<open>An exception value, with its message.\<close>

datatype jsError = Error jsstring

text \<open>
  JSON values, as \<open>res.json()\<close> yields them. An object lists its properties; the first pair
  with a name gives the property of that name.
\<close>

datatype json =
    JNull
  | JBool bool
  | JNum int
  | JStr jsstring
  | JArr "json list"
  | JObj "(jsstring \<times> json) list"

text \<open>
  A response of \<open>fetch\<close>: \<open>headersGet\<close> is \<open>res.headers.get\<close>, \<open>bodyText\<close> the outcome of
  \<open>await res.text()\<close> and \<open>bodyJson\<close> that of \<open>await res.json()\<close>, \<open>Inl\<close> when the promise
  rejects.
\<close>

record response =
  status :: nat
  headersGet :: "jsstring \<Rightarrow> jsstring option"
  bodyText :: "jsError + jsstring"
  bodyJson :: "jsError + json"

definition ok :: "response \<Rightarrow> bool" where
  "ok res \<longleftrightarrow> 200 \<le> status res \<and> status res \<le> 299"

record request =
  url :: jsstring
  httpMethod :: jsstring
  redirect :: jsstring
  referrer :: "jsstring option"
  headers :: "(jsstring \<times> jsstring) list"
  body :: "json option"

text \<open>
  The network answers a request, or \<open>fetch\<close> rejects (\<open>Inl\<close>). The answer may depend on how
  many requests were issued before, so that the same request can fail once and succeed
  later. Every function that calls \<open>fetch\<close> takes the list of the requests issued so far
  and returns it extended by its own.
\<close>

type_synonym network = "nat \<Rightarrow> request \<Rightarrow> jsError + response"

text \<open>
  \<open>new URL(href)\<close> and \<open>new URL(href, base)\<close> belong to the platform and are parameters;
  \<open>None\<close> stands for the \<open>TypeError\<close> of an invalid URL.
\<close>

record jsUrl =
  href :: jsstring
  hostname :: jsstring
  pathname :: jsstring

record urlApi =
  newURL :: "jsstring \<Rightarrow> jsUrl option"
  newURLBase :: "jsstring \<Rightarrow> jsstring \<Rightarrow> jsUrl option"

text \<open>The decimal digits of a number, for \<open>${res.status}\<close>.\<close>

function showNat :: "nat \<Rightarrow> jsstring" where
  "showNat n = (if n < 10 then [48 + n] else showNat (n div 10) @ [48 + n mod 10])"
  by pat_completeness auto
termination
  by (relation "measure id") auto

section \<open>Fetching a page: \<open>fetchHtml\<close>\<close>

definition acceptHtml :: jsstring where
  "acceptHtml = js ''text/html,application/xhtml+xml,application/xml;q=0.9,*/*;q=0.8''"

definition googleNewsReferrer :: jsstring where
  "googleNewsReferrer = js ''https://news.google.com/''"

text \<open>\<open>fetch(url, { redirect: mode, referrer: ref, headers: { 'Accept': ... } })\<close>\<close>

definition pageRequest :: "jsstring \<Rightarrow> jsstring \<Rightarrow> jsstring option \<Rightarrow> request" where
  "pageRequest u mode ref =
     \<lparr>url = u, httpMethod = js ''GET'', redirect = mode, referrer = ref,
      headers = [(js ''Accept'', acceptHtml)], body = None\<rparr>"



section \<open>Article-likelihood heuristics\<close>

text \<open>
  \<open>s.startsWith(p)\<close>, \<open>s.includes(p)\<close> and \<open>s.endsWith(p)\<close> take the pattern \<open>p\<close> first
  here, like \<open>startsWith\<close> above (\<open>includesStr\<close> is \<open>includes\<close>).
\<close>

fun includesStr :: "jsstring \<Rightarrow> jsstring \<Rightarrow> bool" where
  "includesStr p [] = (p = [])"
| "includesStr p (c # cs) = (startsWith p (c # cs) \<or> includesStr p cs)"

definition endsWith :: "jsstring \<Rightarrow> jsstring \<Rightarrow> bool" where
  "endsWith p s \<longleftrightarrow> startsWith (rev p) (rev s)"

text \<open>The expression of \<open>isDisallowedHost\<close> in \<open>src/background.js\<close>.\<close>

definition disallowedHostRx :: rx where
  "disallowedHostRx =
     alts [litCI ''news.google.com'', Cat (litCI ''google.'') (plus notSlash),
           litCI ''gstatic.com'', litCI ''googleusercontent.com'', litCI ''googleapis.com'',
           litCI ''doubleclick.net'', litCI ''googletagmanager.com'',
           litCI ''google-analytics.com'', litCI ''scorecardresearch.com'',
           litCI ''adservice.google.com'', litCI ''youtube.com'', litCI ''twitter.com'',
           litCI ''facebook.com'', litCI ''t.co'', litCI ''cdn.ampproject.org'', litCI ''w3.org'',
           litCI ''schema.org'', litCI ''ogp.me'', litCI ''opengraphprotocol.org'']"

definition isDisallowedHost :: "jsstring \<Rightarrow> bool" where
  "isDisallowedHost host = rxTest disallowedHostRx host"

text \<open>\<open>/\.(js|css|png|jpe?g|gif|webp|svg|ico|json|xml|woff2?|ttf|eot)(\?|$)/i\<close>\<close>

definition assetRx :: rx where
  "assetRx =
     cats [ch CHR ''.'',
           alts [litCI ''js'', litCI ''css'', litCI ''png'',
                 cats [litCI ''jp'', opt (chCI CHR ''e''), chCI CHR ''g''],
                 litCI ''gif'', litCI ''webp'', litCI ''svg'', litCI ''ico'', litCI ''json'',
                 litCI ''xml'', cats [litCI ''woff'', opt (ch CHR ''2'')], litCI ''ttf'',
                 litCI ''eot''],
           Alt (ch CHR ''?'') AtEnd]"

text \<open>
  The \<open>articlePatterns\<close> of \<open>isLikelyArticleUrl\<close>: \<open>/\/\d{4}\/\d{2}\/\d{2}\//\<close>,
  \<open>/\/article\//\<close>, \<open>/\/story\//\<close>, \<open>/\/news\//\<close>, \<open>/\/post\//\<close>, \<open>/\/blog\//\<close>,
  \<open>/\/[a-z]{2,}\/\d{4}\//\<close>, \<open>/\/[a-z]{2,}\/[a-z]{2,}\//\<close>.
\<close>

definition articlePatterns :: "rx list" where
  "articlePatterns =
     [cats [ch CHR ''/'', rep 4 digit, ch CHR ''/'', rep 2 digit, ch CHR ''/'', rep 2 digit,
            ch CHR ''/''],
      lit ''/article/'', lit ''/story/'', lit ''/news/'', lit ''/post/'', lit ''/blog/'',
      cats [ch CHR ''/'', repMin 2 lowerLetter, ch CHR ''/'', rep 4 digit, ch CHR ''/''],
      cats [ch CHR ''/'', repMin 2 lowerLetter, ch CHR ''/'', repMin 2 lowerLetter, ch CHR ''/'']]"

text \<open>\<open>isLikelyArticleUrl\<close> of \<open>src/background.js\<close>; an invalid URL is caught and gives false.\<close>

definition isLikelyArticleUrl :: "urlApi \<Rightarrow> jsstring \<Rightarrow> bool" where
  "isLikelyArticleUrl api h =
     (case newURL api h of
        None \<Rightarrow> False
      | Some u \<Rightarrow>
          if isDisallowedHost (hostname u) then False
          else
            let path = pathname u
            in if rxTest assetRx path then False
               else if list_ex (\<lambda>p. rxTest p path) articlePatterns then True
               else length path > 5 \<and> rxTest letter path)"

section \<open>RedirectResolver: \<open>probeExternalRedirect\<close>\<close>

text \<open>\<open>res.headers.get('Location') || res.headers.get('location')\<close>, with \<open>if (loc)\<close>: the
  value is used when it is not null and not empty.\<close>

definition locationOf :: "response \<Rightarrow> jsstring option" where
  "locationOf res =
     (let loc = (case headersGet res (js ''Location'') of
                   None \<Rightarrow> headersGet res (js ''location'')
                 | Some v \<Rightarrow> if v = [] then headersGet res (js ''location'') else Some v)
      in case loc of None \<Rightarrow> None | Some v \<Rightarrow> if v = [] then None else Some v)"

text \<open>
  The body of one \<open>try\<close> block of \<open>probeExternalRedirect\<close>, given the outcome of its
  \<open>fetch\<close>: \<open>Some abs\<close> when it returns \<open>abs\<close>, \<open>None\<close> when control leaves the block
  without a result, also through its \<open>catch\<close> (a rejected \<open>fetch\<close>, an invalid URL).
\<close>

definition probeAttempt :: "urlApi \<Rightarrow> jsstring \<Rightarrow> jsError + response \<Rightarrow> jsstring option" where
  "probeAttempt api u r =
     (case r of
        Inl e \<Rightarrow> None
      | Inr res \<Rightarrow>
          if status res \<ge> 300 \<and> status res < 400
          then (case locationOf res of
                  None \<Rightarrow> None
                | Some loc \<Rightarrow>
                    (case newURLBase api loc u of
                       None \<Rightarrow> None
                     | Some a \<Rightarrow> if isLikelyArticleUrl api (href a) then Some (href a) else None))
          else None)"

definition probeExternalRedirect ::
  "urlApi \<Rightarrow> network \<Rightarrow> request list \<Rightarrow> jsstring \<Rightarrow> jsstring \<times> request list" where
  "probeExternalRedirect api net log u =
     (let req1 = pageRequest u (js ''manual'') None;
          log1 = log @ [req1]
      in case probeAttempt api u (net (length log) req1) of
           Some a \<Rightarrow> (a, log1)
         | None \<Rightarrow>
             let req2 = pageRequest u (js ''manual'') (Some googleNewsReferrer);
                 log2 = log1 @ [req2]
             in (case probeAttempt api u (net (length log1) req2) of
                   Some a \<Rightarrow> (a, log2)
                 | None \<Rightarrow> ([], log2)))"

section \<open>CandidateUrlScanner: \<open>extractExternalUrlFromGoogleNews\<close>\<close>

definition blacklistedHosts :: "jsstring list" where
  "blacklistedHosts =
     map js
       [''w3.org'', ''schema.org'', ''ogp.me'', ''opengraphprotocol.org'', ''xml.org'', ''ietf.org'',
        ''rfc-editor.org'', ''whatwg.org'', ''ecma-international.org'', ''iso.org'', ''ansi.org'',
        ''ieee.org'',
        ''developer.mozilla.org'', ''docs.microsoft.com'', ''developers.google.com'', ''github.com'',
        ''gitlab.com'', ''stackoverflow.com'', ''stackexchange.com'', ''reddit.com'',
        ''hackernews.com'',
        ''angular.dev'', ''angular.io'', ''react.dev'', ''reactjs.org'', ''vuejs.org'', ''svelte.dev'',
        ''nextjs.org'', ''nuxtjs.org'', ''gatsbyjs.com'', ''webpack.js.org'', ''babeljs.io'',
        ''eslint.org'', ''prettier.io'', ''typescript.org'', ''nodejs.org'', ''npmjs.com'',
        ''yarnpkg.com'', ''deno.land'', ''bun.sh'',
        ''facebook.com'', ''twitter.com'', ''x.com'', ''instagram.com'', ''linkedin.com'',
        ''youtube.com'', ''tiktok.com'', ''snapchat.com'', ''pinterest.com'', ''tumblr.com'',
        ''cdn.jsdelivr.net'', ''unpkg.com'', ''jsdelivr.net'', ''cdnjs.cloudflare.com'',
        ''bootcdn.net'', ''cdn.staticfile.org'', ''lib.baomitu.com'', ''cdn.bootcss.com'',
        ''google-analytics.com'', ''googletagmanager.com'', ''doubleclick.net'', ''facebook.net'',
        ''scorecardresearch.com'', ''adservice.google.com'', ''googlesyndication.com'',
        ''chrome.google.com'', ''addons.mozilla.org'', ''extensions.chrome.com'',
        ''microsoftedge.microsoft.com'', ''support.apple.com'', ''support.microsoft.com'',
        ''help.ubuntu.com'']"

definition blacklistedPathPatterns :: "rx list" where
  "blacklistedPathPatterns =
     [wordsCI [''namespace'', ''schema'', ''specification'', ''reference'', ''documentation'',
               ''xml'', ''html'', ''css'', ''javascript'', ''api'', ''rfc'', ''ietf'', ''draft'',
               ''proposal'', ''working-group''],
      wordsCI [''chrome'', ''firefox'', ''safari'', ''edge'', ''browser'', ''extension'', ''addon'',
               ''plugin'', ''update'', ''download'', ''install''],
      wordsCI [''github'', ''gitlab'', ''stackoverflow'', ''reddit'', ''hackernews'', ''forum'',
               ''community'', ''support'', ''help'', ''faq'', ''docs'', ''manual'', ''guide'',
               ''tutorial''],
      wordsCI [''facebook'', ''twitter'', ''instagram'', ''linkedin'', ''youtube'', ''tiktok'',
               ''snapchat'', ''pinterest'', ''tumblr'', ''social'', ''share'', ''like'', ''comment''],
      wordsCI [''cdn'', ''static'', ''assets'', ''images'', ''js'', ''css'', ''fonts'', ''icons'',
               ''logos'', ''banners'', ''ads'', ''tracking'', ''analytics''],
      wordsCI [''license'', ''licenses'', ''terms'', ''privacy'', ''policy'', ''policies'', ''legal'',
               ''disclaimer'', ''copyright'', ''trademark'', ''patent''],
      wordsCI [''about'', ''contact'', ''help'', ''support'', ''faq'', ''feedback'', ''report'',
               ''bug'', ''issue'', ''status'', ''maintenance'', ''sitemap'', ''robots''],
      wordsCI [''login'', ''logout'', ''signin'', ''signout'', ''register'', ''signup'', ''account'',
               ''profile'', ''settings'', ''preferences'', ''dashboard'', ''admin'']]"

text \<open>The inner function \<open>isUrlBlacklisted\<close>.\<close>

definition isUrlBlacklisted :: "jsstring \<Rightarrow> jsstring \<Rightarrow> bool" where
  "isUrlBlacklisted host path \<longleftrightarrow>
     list_ex (\<lambda>blacklisted. includesStr blacklisted host \<or> endsWith (46 # blacklisted) host)
             blacklistedHosts \<or>
     list_ex (\<lambda>pattern. rxTest pattern path) blacklistedPathPatterns"

text \<open>The test under the comment \<open>Skip Google domains\<close>, the same in the three passes.\<close>

definition isGoogleDomain :: "jsstring \<Rightarrow> bool" where
  "isGoogleDomain host \<longleftrightarrow>
     includesStr (js ''google.com'') host \<or> includesStr (js ''gstatic.com'') host \<or>
     includesStr (js ''googleusercontent.com'') host \<or> includesStr (js ''cdn.ampproject.org'') host"

text \<open>The \<open>articlePatterns\<close> of the first pass: the eight above and twelve section names.\<close>

definition articlePatternsWide :: "rx list" where
  "articlePatternsWide =
     articlePatterns @
     [lit ''/articles/'', lit ''/entertainment/'', lit ''/tech/'', lit ''/sports/'',
      lit ''/politics/'', lit ''/business/'', lit ''/world/'', lit ''/local/'', lit ''/opinion/'',
      lit ''/lifestyle/'', lit ''/health/'', lit ''/science/'']"

text \<open>
  The bodies of the three loops over \<open>hrefs\<close>: whether the loop returns \<open>h\<close>. An invalid
  URL throws inside the \<open>try\<close> and the loop goes on.
\<close>

definition firstPass :: "urlApi \<Rightarrow> jsstring \<Rightarrow> bool" where
  "firstPass api h =
     (case newURL api h of
        None \<Rightarrow> False
      | Some u \<Rightarrow>
          let host = hostname u; path = pathname u
          in if isGoogleDomain host then False
             else if isUrlBlacklisted host path then False
             else list_ex (\<lambda>pattern. rxTest pattern path) articlePatternsWide \<or>
                  (length path > 15 \<and> rxTest letter path))"

definition newsSiteRx :: rx where
  "newsSiteRx =
     wordsCI [''news'', ''media'', ''press'', ''journal'', ''times'', ''post'', ''tribune'', ''herald'',
              ''gazette'', ''chronicle'', ''observer'', ''review'', ''weekly'', ''daily'',
              ''magazine'', ''blog'', ''site'', ''web'', ''online'', ''digital'', ''com'', ''org'',
              ''net'', ''co'', ''io'', ''dev'']"

definition newsPathRx :: rx where
  "newsPathRx =
     wordsCI [''article'', ''story'', ''post'', ''blog'', ''news'', ''content'', ''page'', ''view'',
              ''read'']"

definition secondPass :: "urlApi \<Rightarrow> jsstring \<Rightarrow> bool" where
  "secondPass api h =
     (case newURL api h of
        None \<Rightarrow> False
      | Some u \<Rightarrow>
          let host = hostname u; path = pathname u
          in if isGoogleDomain host then False
             else if isUrlBlacklisted host path then False
             else host \<noteq> [] \<and> host \<noteq> js ''news.google.com'' \<and>
                  (rxTest newsSiteRx host \<or> (length path > 10 \<and> rxTest letter path) \<or>
                   rxTest newsPathRx path))"

definition thirdPass :: "urlApi \<Rightarrow> jsstring \<Rightarrow> bool" where
  "thirdPass api h =
     (case newURL api h of
        None \<Rightarrow> False
      | Some u \<Rightarrow>
          let host = hostname u; path = pathname u
          in if isGoogleDomain host then False
             else if isUrlBlacklisted host path then False
             else host \<noteq> [] \<and> host \<noteq> js ''news.google.com'')"

text \<open>The three passes over the collected \<open>hrefs\<close>, each returning its first hit.\<close>

definition selectExternalUrl :: "urlApi \<Rightarrow> jsstring list \<Rightarrow> jsstring" where
  "selectExternalUrl api hrefs =
     (case find (firstPass api) hrefs of
        Some h \<Rightarrow> h
      | None \<Rightarrow>
          (case find (secondPass api) hrefs of
             Some h \<Rightarrow> h
           | None \<Rightarrow> (case find (thirdPass api) hrefs of Some h \<Rightarrow> h | None \<Rightarrow> [])))"

text \<open>
  \<open>extractExternalUrlFromGoogleNews\<close> of \<open>src/background.js\<close>. The first half of the
  function gathers the list \<open>hrefs\<close> from the page with some forty regular expressions;
  the second half, above, picks the result from that list and is the only place where a
  URL is admitted or rejected. The gathering is the parameter \<open>collectHrefs\<close>: what is
  proved of the result holds for every list it may produce.
\<close>

definition extractExternalUrlFromGoogleNews ::
  "urlApi \<Rightarrow> (jsstring \<Rightarrow> jsstring list) \<Rightarrow> jsstring \<Rightarrow> jsstring" where
  "extractExternalUrlFromGoogleNews api collectHrefs html =
     (if html = [] then [] else selectExternalUrl api (collectHrefs html))"

section \<open>SummarizationEngine\<close>

text \<open>
  The settings; a field that is missing (\<open>undefined\<close>) is the empty string, which every use
  in the code (\<open>!apiKey\<close>, \<open>settings.model || ''\<close>, \<open>model || 'gpt-5-nano'\<close>,
  \<open>settings.systemPrompt ? ... : ...\<close>) treats in the same way.
\<close>

record settings =
  provider :: jsstring
  model :: jsstring
  apiKey :: jsstring
  systemPrompt :: jsstring

text \<open>
  \<open>toLowerCase\<close>, on the ASCII letters. The code only compares lower-cased texts with
  ASCII literals (\<open>'gpt-5'\<close>, \<open>'authorization'\<close>, \<open>'incomplete'\<close>, \<open>'openai'\<close>), and no letter
  outside ASCII has a lower case that is a single ASCII letter of these literals.
\<close>

definition toLowerCase :: "jsstring \<Rightarrow> jsstring" where
  "toLowerCase s = map lowerAscii s"

subsection \<open>JSON values as JavaScript sees them\<close>

text \<open>\<open>j.k\<close> for a value that is not null: \<open>None\<close> is \<open>undefined\<close>.\<close>

fun getProp :: "json \<Rightarrow> string \<Rightarrow> json option" where
  "getProp (JObj kvs) k = map_of kvs (js k)"
| "getProp j k = None"

text \<open>\<open>x?.k\<close>\<close>

fun propQ :: "json option \<Rightarrow> string \<Rightarrow> json option" where
  "propQ None k = None"
| "propQ (Some JNull) k = None"
| "propQ (Some j) k = getProp j k"

text \<open>\<open>x?.[0]\<close>\<close>

fun index0Q :: "json option \<Rightarrow> json option" where
  "index0Q (Some (JArr (x # xs))) = Some x"
| "index0Q (Some (JObj kvs)) = map_of kvs (js ''0'')"
| "index0Q (Some (JStr (c # cs))) = Some (JStr [c])"
| "index0Q j = None"

text \<open>\<open>typeof x === 'string'\<close>, \<open>Array.isArray(x)\<close>, and the elements of an array.\<close>

fun isString :: "json option \<Rightarrow> bool" where
  "isString (Some (JStr s)) = True"
| "isString j = False"

fun isArray :: "json option \<Rightarrow> bool" where
  "isArray (Some (JArr xs)) = True"
| "isArray j = False"

fun elements :: "json option \<Rightarrow> json list" where
  "elements (Some (JArr xs)) = xs"
| "elements j = []"

text \<open>Whether a value counts as true in a condition.\<close>

fun truthy :: "json option \<Rightarrow> bool" where
  "truthy None = False"
| "truthy (Some JNull) = False"
| "truthy (Some (JBool b)) = b"
| "truthy (Some (JNum n)) = (n \<noteq> 0)"
| "truthy (Some (JStr s)) = (s \<noteq> [])"
| "truthy (Some j) = True"

text \<open>\<open>a || b\<close>\<close>

definition orJ :: "json option \<Rightarrow> json option \<Rightarrow> json option" where
  "orJ a b = (if truthy a then a else b)"

text \<open>Joining texts with a separator, as \<open>Array.prototype.join\<close> does.\<close>

fun joinWith :: "jsstring \<Rightarrow> jsstring list \<Rightarrow> jsstring" where
  "joinWith sep [] = []"
| "joinWith sep [x] = x"
| "joinWith sep (x # xs) = x @ sep @ joinWith sep xs"

text \<open>
  \<open>String(x)\<close>. A number stands for an integral JSON number below \<open>10^21\<close> in magnitude,
  which prints in decimal; an array prints its elements separated by commas, with nothing
  for null; an object prints as \<open>[object Object]\<close>.
\<close>

fun toStringJ :: "json \<Rightarrow> jsstring" where
  "toStringJ JNull = js ''null''"
| "toStringJ (JBool b) = (if b then js ''true'' else js ''false'')"
| "toStringJ (JNum n) = (if n < 0 then 45 # showNat (nat (- n)) else showNat (nat n))"
| "toStringJ (JStr s) = s"
| "toStringJ (JArr xs) =
     joinWith [44] (map (\<lambda>x. if x = JNull then [] else toStringJ x) xs)"
| "toStringJ (JObj kvs) = js ''[object Object]''"

definition toStringQ :: "json option \<Rightarrow> jsstring" where
  "toStringQ x = (case x of None \<Rightarrow> js ''undefined'' | Some j \<Rightarrow> toStringJ j)"

text \<open>An element of an array as \<open>join\<close> prints it: nothing for \<open>undefined\<close> and null.\<close>

definition joinItem :: "json option \<Rightarrow> jsstring" where
  "joinItem x = (case x of None \<Rightarrow> [] | Some j \<Rightarrow> if j = JNull then [] else toStringJ j)"

subsection \<open>Prompt and header checks\<close>

definition defaultSystemPrompt :: jsstring where
  "defaultSystemPrompt =
     js ''You are a news summarizer.'' @ [10] @
     js ''- Return exactly one concise sentence (max 25 words).'' @ [10] @
     js ''- No emojis, no quotes, no markdown.'' @ [10] @
     js ''- Be factual and neutral.''"

definition buildPrompt :: "jsstring \<Rightarrow> settings \<Rightarrow> jsstring \<times> jsstring" where
  "buildPrompt text st =
     (let t = take 8000 (trim (collapseWhite text));
          system = (if systemPrompt st \<noteq> [] then systemPrompt st else defaultSystemPrompt);
          user = js ''Summarize the following content into ONE single-line sentence (max 25 words):'' @
                 [10] @ js ''---'' @ [10] @ t @ [10] @ js ''---''
      in (system, user))"

text \<open>The two messages of \<open>validateHeaderByteString\<close> in \<open>src/background.js\<close>.\<close>

definition nonAsciiMessage :: "jsstring \<Rightarrow> jsstring" where
  "nonAsciiMessage name =
     js ''Header '' @ [34] @ name @ [34] @
     js '' contains a non-ASCII character (e.g., '' @ [34] @ js ''smart quotes'' @ [34] @
     js '' or an ellipsis). Re-copy your API key exactly from OpenAI (no ) and paste plain text.''"

definition longKeyMessage :: jsstring where
  "longKeyMessage =
     js ''API key appears unusually long. Ensure you copied the exact key (no hidden/truncated characters).''"

text \<open>\<open>value.replace(/^Bearer\s+/i, '')\<close>\<close>

definition stripBearer :: "jsstring \<Rightarrow> jsstring" where
  "stripBearer v =
     (let n = length (takeWhile isWhiteSpace (drop 6 v))
      in if startsWithCI (js ''Bearer'') v \<and> 0 < n then drop (6 + n) v else v)"

text \<open>\<open>validateHeaderByteString\<close>: the error it throws, or \<open>None\<close> when it returns.\<close>

definition validateHeaderByteString :: "jsstring \<Rightarrow> jsstring \<Rightarrow> jsError option" where
  "validateHeaderByteString name v =
     (if list_ex (\<lambda>code. code > 127) v then Some (Error (nonAsciiMessage name))
      else if toLowerCase name = js ''authorization'' \<and> length (stripBearer v) > 200
      then Some (Error longKeyMessage)
      else None)"

text \<open>\<open>safeText\<close>\<close>

definition safeText :: "response \<Rightarrow> jsstring" where
  "safeText res = (case bodyText res of Inl e \<Rightarrow> js ''<no body>'' | Inr t \<Rightarrow> t)"

subsection \<open>The requests\<close>

definition chatUrl :: jsstring where
  "chatUrl = js ''https://api.openai.com/v1/chat/completions''"

definition responsesUrl :: jsstring where
  "responsesUrl = js ''https://api.openai.com/v1/responses''"

text \<open>\<open>model || 'gpt-5-nano'\<close>\<close>

definition modelOrDefault :: "settings \<Rightarrow> jsstring" where
  "modelOrDefault st = (if model st \<noteq> [] then model st else js ''gpt-5-nano'')"

definition apiRequest :: "jsstring \<Rightarrow> jsstring \<Rightarrow> json \<Rightarrow> request" where
  "apiRequest u key b =
     \<lparr>url = u, httpMethod = js ''POST'', redirect = js ''follow'', referrer = None,
      headers = [(js ''Authorization'', js ''Bearer '' @ key),
                 (js ''Content-Type'', js ''application/json'')],
      body = Some b\<rparr>"

definition chatBody :: "settings \<Rightarrow> jsstring \<Rightarrow> jsstring \<Rightarrow> json" where
  "chatBody st system user =
     JObj [(js ''model'', JStr (modelOrDefault st)),
           (js ''messages'',
            JArr [JObj [(js ''role'', JStr (js ''system'')), (js ''content'', JStr system)],
                  JObj [(js ''role'', JStr (js ''user'')), (js ''content'', JStr user)]])]"

text \<open>The body of a request of the Responses API: \<open>base\<close>, the \<open>text\<close> field when the format
  hint is used, and \<open>max_output_tokens\<close> when there is a cap.\<close>

definition responsesBody :: "settings \<Rightarrow> jsstring \<Rightarrow> jsstring \<Rightarrow> int option \<Rightarrow> bool \<Rightarrow> json" where
  "responsesBody st system user cap useTextFormat =
     JObj ([(js ''model'', JStr (modelOrDefault st)),
            (js ''instructions'', JStr system),
            (js ''input'',
             JArr [JObj [(js ''role'', JStr (js ''user'')),
                         (js ''content'',
                          JArr [JObj [(js ''type'', JStr (js ''input_text'')),
                                      (js ''text'', JStr user)]])]]),
            (js ''tool_choice'', JStr (js ''none''))] @
           (if useTextFormat
            then [(js ''text'',
                   JObj [(js ''format'', JObj [(js ''type'', JStr (js ''text''))]),
                         (js ''verbosity'', JStr (js ''low''))])]
            else []) @
           (case cap of None \<Rightarrow> [] | Some c \<Rightarrow> [(js ''max_output_tokens'', JNum c)]))"

subsection \<open>Reading the answer of the Responses API\<close>

text \<open>The predicate of the two \<open>find\<close> calls.\<close>

definition isTextPart :: "json \<Rightarrow> bool" where
  "isTextPart p \<longleftrightarrow>
     isString (propQ (Some p) ''text'') \<or>
     propQ (Some p) ''type'' = Some (JStr (js ''output_text'')) \<or>
     propQ (Some p) ''type'' = Some (JStr (js ''summary_text''))"

text \<open>The loop over \<open>data.output\<close> looking for a message with a text part; it stops at the
  first message whose text part has a text or a value.\<close>

fun scanOutput :: "json list \<Rightarrow> json option" where
  "scanOutput [] = None"
| "scanOutput (item # rest) =
     (if propQ (Some item) ''type'' = Some (JStr (js ''message'')) \<and> isArray (getProp item ''content'')
      then (case find isTextPart (elements (getProp item ''content'')) of
              None \<Rightarrow> scanOutput rest
            | Some textPart \<Rightarrow>
                if isString (getProp textPart ''text'') \<or> isString (getProp textPart ''value'')
                then orJ (getProp textPart ''text'') (getProp textPart ''value'')
                else scanOutput rest)
      else scanOutput rest)"

text \<open>The texts gathered by the second, broader loop over \<open>data.output\<close>.\<close>

definition gatherParts :: "json list \<Rightarrow> json option list" where
  "gatherParts items =
     concat (map (\<lambda>item.
                    if truthy (Some item) \<and> isArray (getProp item ''content'')
                    then map (\<lambda>p. orJ (getProp p ''text'') (getProp p ''value''))
                           (filter (\<lambda>p. truthy (Some p) \<and>
                                         (isString (getProp p ''text'') \<or> isString (getProp p ''value'')))
                                   (elements (getProp item ''content'')))
                    else [])
                 items)"

text \<open>
  The content read from the parsed answer \<open>data\<close>, which is not null: \<open>None\<close> is null or
  undefined.
\<close>

definition responsesContent :: "json \<Rightarrow> json option" where
  "responsesContent data =
     (let content =
            (if isString (getProp data ''output_text'') then getProp data ''output_text''
             else if isArray (getProp data ''output'') then scanOutput (elements (getProp data ''output''))
             else if isArray (getProp data ''content'')
             then (case find isTextPart (elements (getProp data ''content'')) of
                     None \<Rightarrow> None
                   | Some textPart \<Rightarrow>
                       orJ (orJ (orJ (getProp textPart ''text'') (propQ (Some textPart) ''content''))
                                (propQ (Some textPart) ''value''))
                           (Some (JStr [])))
             else None)
      in if (\<not> truthy content \<or> \<not> isString content) \<and> isArray (getProp data ''output'')
         then (let parts = gatherParts (elements (getProp data ''output''))
               in if parts \<noteq> []
                  then Some (JStr (trim (collapseWhite (joinWith [32] (map joinItem parts)))))
                  else content)
         else content)"

subsection \<open>The two call shapes\<close>

text \<open>How one round of the inner loop of \<open>summarizeWithOpenAIResponses\<close> ends.\<close>

datatype roundEnd =
    Returned jsstring
  | Thrown jsError
  | NextFormat
  | NextCap

text \<open>
  One round: the request for a cap and a format choice, and what its answer leads to.
  \<open>lastCap\<close> tells whether the cap is the last of \<open>caps\<close>. The result carries the error
  text kept in \<open>lastErrText\<close>.
\<close>

definition responsesRound ::
  "network \<Rightarrow> request list \<Rightarrow> jsstring option \<Rightarrow> settings \<Rightarrow> jsstring \<Rightarrow> jsstring \<Rightarrow> jsstring \<Rightarrow>
   int option \<Rightarrow> bool \<Rightarrow> bool \<Rightarrow> roundEnd \<times> request list \<times> jsstring option" where
  "responsesRound net log lastErrText st system user key cap lastCap useTextFormat =
     (let req = apiRequest responsesUrl key (responsesBody st system user cap useTextFormat);
          log' = log @ [req]
      in case net (length log) req of
           Inl e \<Rightarrow> (Thrown e, log', lastErrText)
         | Inr res \<Rightarrow>
             if ok res
             then (case bodyJson res of
                     Inl e \<Rightarrow> (Thrown e, log', lastErrText)
                   | Inr data \<Rightarrow>
                       if data = JNull
                       then (Thrown (Error (js ''Cannot read properties of null'')), log', lastErrText)
                       else
                         (case responsesContent data of
                            Some (JStr content) \<Rightarrow>
                              if content \<noteq> [] \<and> trim content \<noteq> []
                              then (Returned (sanitizeOneLine_background content), log', lastErrText)
                              else if toLowerCase (toStringQ (propQ (Some data) ''status'')) =
                                        js ''incomplete'' \<and> \<not> lastCap
                              then (NextCap, log', lastErrText)
                              else (Thrown (Error (js ''No summary returned by OpenAI'')), log',
                                    lastErrText)
                          | other \<Rightarrow>
                              if toLowerCase (toStringQ (propQ (Some data) ''status'')) =
                                   js ''incomplete'' \<and> \<not> lastCap
                              then (NextCap, log', lastErrText)
                              else (Thrown (Error (js ''No summary returned by OpenAI'')), log',
                                    lastErrText)))
             else
               (let errText = safeText res
                in if rxTest (litCI ''unsupported_parameter'') errText \<and>
                      rxTest (litCI ''text.format'') errText
                   then (NextFormat, log', Some errText)
                   else if rxTest (litCI ''unsupported_parameter'') errText \<and>
                           rxTest (litCI ''tool_choice'') errText
                   then (NextFormat, log', Some errText)
                   else (NextCap, log', Some errText)))"

text \<open>The inner loop \<open>for (const useTextFormat of [true, false])\<close>.\<close>

fun formatLoop ::
  "network \<Rightarrow> request list \<Rightarrow> jsstring option \<Rightarrow> settings \<Rightarrow> jsstring \<Rightarrow> jsstring \<Rightarrow> jsstring \<Rightarrow>
   int option \<Rightarrow> bool \<Rightarrow> bool list \<Rightarrow> roundEnd \<times> request list \<times> jsstring option" where
  "formatLoop net log lastErrText st system user key cap lastCap [] = (NextCap, log, lastErrText)"
| "formatLoop net log lastErrText st system user key cap lastCap (useTextFormat # rest) =
     (case responsesRound net log lastErrText st system user key cap lastCap useTextFormat of
        (NextFormat, log', lastErrText') \<Rightarrow>
          formatLoop net log' lastErrText' st system user key cap lastCap rest
      | end \<Rightarrow> end)"

text \<open>The outer loop \<open>for (const cap of caps)\<close> and the final \<open>throw\<close>.\<close>

fun capLoop ::
  "network \<Rightarrow> request list \<Rightarrow> jsstring option \<Rightarrow> settings \<Rightarrow> jsstring \<Rightarrow> jsstring \<Rightarrow> jsstring \<Rightarrow>
   int option list \<Rightarrow> (jsError + jsstring) \<times> request list" where
  "capLoop net log lastErrText st system user key [] =
     (Inl (Error (js ''OpenAI error (responses): '' @
                  (case lastErrText of
                     None \<Rightarrow> js ''unknown error''
                   | Some t \<Rightarrow> if t = [] then js ''unknown error'' else t))),
      log)"
| "capLoop net log lastErrText st system user key (cap # rest) =
     (case formatLoop net log lastErrText st system user key cap (rest = []) [True, False] of
        (Returned s, log', lastErrText') \<Rightarrow> (Inr s, log')
      | (Thrown e, log', lastErrText') \<Rightarrow> (Inl e, log')
      | (end, log', lastErrText') \<Rightarrow> capLoop net log' lastErrText' st system user key rest)"

definition summarizeWithOpenAIResponses ::
  "network \<Rightarrow> request list \<Rightarrow> jsstring \<Rightarrow> jsstring \<Rightarrow> settings \<Rightarrow>
   (jsError + jsstring) \<times> request list" where
  "summarizeWithOpenAIResponses net log system user st =
     (let key = trim (apiKey st)
      in case validateHeaderByteString (js ''Authorization'') (js ''Bearer '' @ key) of
           Some e \<Rightarrow> (Inl e, log)
         | None \<Rightarrow>
             (case validateHeaderByteString (js ''Content-Type'') (js ''application/json'') of
                Some e \<Rightarrow> (Inl e, log)
              | None \<Rightarrow> capLoop net log None st system user key [None, Some 512]))"

text \<open>\<open>/max_tokens/i\<close> and \<open>/max_?completion_?tokens/i\<close>\<close>

definition maxTokensRx :: rx where
  "maxTokensRx = litCI ''max_tokens''"

definition maxCompletionTokensRx :: rx where
  "maxCompletionTokensRx =
     cats [litCI ''max'', opt (ch CHR ''_''), litCI ''completion'', opt (ch CHR ''_''),
           litCI ''tokens'']"

definition summarizeWithOpenAI ::
  "network \<Rightarrow> request list \<Rightarrow> jsstring \<Rightarrow> settings \<Rightarrow> (jsError + jsstring) \<times> request list" where
  "summarizeWithOpenAI net log text st =
     (if apiKey st = []
      then (Inl (Error (js ''OpenAI API key not set. Configure it in the extension Options.'')), log)
      else
        let (system, user) = buildPrompt text st;
            modelName = toLowerCase (model st)
        in if startsWith (js ''gpt-5'') modelName
           then summarizeWithOpenAIResponses net log system user st
           else
             let key = trim (apiKey st)
             in case validateHeaderByteString (js ''Authorization'') (js ''Bearer '' @ key) of
                  Some e \<Rightarrow> (Inl e, log)
                | None \<Rightarrow>
                    (case validateHeaderByteString (js ''Content-Type'') (js ''application/json'') of
                       Some e \<Rightarrow> (Inl e, log)
                     | None \<Rightarrow>
                         let req = apiRequest chatUrl key (chatBody st system user);
                             log' = log @ [req]
                         in case net (length log) req of
                              Inl e \<Rightarrow> (Inl e, log')
                            | Inr chatRes \<Rightarrow>
                                if ok chatRes
                                then (case bodyJson chatRes of
                                        Inl e \<Rightarrow> (Inl e, log')
                                      | Inr chatData \<Rightarrow>
                                          (case propQ (propQ (index0Q (propQ (Some chatData)
                                                  ''choices'')) ''message'') ''content'' of
                                             Some (JStr content) \<Rightarrow>
                                               if content \<noteq> []
                                               then (Inr (sanitizeOneLine_background content), log')
                                               else (Inl (Error (js ''No summary returned by OpenAI'')),
                                                     log')
                                           | other \<Rightarrow>
                                               (Inl (Error (js ''No summary returned by OpenAI'')),
                                                log')))
                                else
                                  let errText = safeText chatRes
                                  in if status chatRes = 400 \<and> rxTest maxTokensRx errText \<and>
                                        rxTest maxCompletionTokensRx errText
                                     then summarizeWithOpenAIResponses net log' system user st
                                     else (Inl (Error (js ''OpenAI error ('' @
                                                       showNat (status chatRes) @ js ''): '' @
                                                       errText)),
                                           log')))"

text \<open>\<open>summarizeWithProvider\<close>\<close>

definition summarizeWithProvider ::
  "network \<Rightarrow> request list \<Rightarrow> jsstring \<Rightarrow> settings \<Rightarrow> (jsError + jsstring) \<times> request list" where
  "summarizeWithProvider net log text st =
     (if toLowerCase (if provider st \<noteq> [] then provider st else js ''openai'') = js ''openai''
      then summarizeWithOpenAI net log text st
      else (Inl (Error (js ''Unsupported provider: '' @ provider st)), log))"

subsection \<open>The copy of the engine in \<open>src/contentScript.js\<close>\<close>

text \<open>
  The file \<open>src/contentScript.js\<close> holds a copy of the engine (lines 1314 to 1540) that
  differs from the one in \<open>src/background.js\<close> in two literals only: the message of
  \<open>validateHeaderByteString\<close> for a character outside ASCII, which has the quotation marks
  U+201C (8220) and U+201D (8221) around \<open>smart quotes\<close> and the ellipsis U+2026 (8230)
  after \<open>no\<close>, and the ellipsis appended by \<open>sanitizeOneLine\<close>. The definitions below are
  those of the copy; prompt, requests, reading of the answers and \<open>safeText\<close> are the same
  text in both files.
\<close>

definition nonAsciiMessage_contentScript :: "jsstring \<Rightarrow> jsstring" where
  "nonAsciiMessage_contentScript name =
     js ''Header '' @ [34] @ name @ [34] @
     js '' contains a non-ASCII character (e.g., '' @ [8220] @ js ''smart quotes'' @ [8221] @
     js '' or an ellipsis). Re-copy your API key exactly from OpenAI (no '' @ [8230] @
     js '') and paste plain text.''"

definition validateHeaderByteString_contentScript :: "jsstring \<Rightarrow> jsstring \<Rightarrow> jsError option" where
  "validateHeaderByteString_contentScript name v =
     (if list_ex (\<lambda>code. code > 127) v then Some (Error (nonAsciiMessage_contentScript name))
      else if toLowerCase name = js ''authorization'' \<and> length (stripBearer v) > 200
      then Some (Error longKeyMessage)
      else None)"

definition responsesRound_contentScript ::
  "network \<Rightarrow> request list \<Rightarrow> jsstring option \<Rightarrow> settings \<Rightarrow> jsstring \<Rightarrow> jsstring \<Rightarrow> jsstring \<Rightarrow>
   int option \<Rightarrow> bool \<Rightarrow> bool \<Rightarrow> roundEnd \<times> request list \<times> jsstring option" where
  "responsesRound_contentScript net log lastErrText st system user key cap lastCap useTextFormat =
     (let req = apiRequest responsesUrl key (responsesBody st system user cap useTextFormat);
          log' = log @ [req]
      in case net (length log) req of
           Inl e \<Rightarrow> (Thrown e, log', lastErrText)
         | Inr res \<Rightarrow>
             if ok res
             then (case bodyJson res of
                     Inl e \<Rightarrow> (Thrown e, log', lastErrText)
                   | Inr data \<Rightarrow>
                       if data = JNull
                       then (Thrown (Error (js ''Cannot read properties of null'')), log', lastErrText)
                       else
                         (case responsesContent data of
                            Some (JStr content) \<Rightarrow>
                              if content \<noteq> [] \<and> trim content \<noteq> []
                              then (Returned (sanitizeOneLine content), log', lastErrText)
                              else if toLowerCase (toStringQ (propQ (Some data) ''status'')) =
                                        js ''incomplete'' \<and> \<not> lastCap
                              then (NextCap, log', lastErrText)
                              else (Thrown (Error (js ''No summary returned by OpenAI'')), log',
                                    lastErrText)
                          | other \<Rightarrow>
                              if toLowerCase (toStringQ (propQ (Some data) ''status'')) =
                                   js ''incomplete'' \<and> \<not> lastCap
                              then (NextCap, log', lastErrText)
                              else (Thrown (Error (js ''No summary returned by OpenAI'')), log',
                                    lastErrText)))
             else
               (let errText = safeText res
                in if rxTest (litCI ''unsupported_parameter'') errText \<and>
                      rxTest (litCI ''text.format'') errText
                   then (NextFormat, log', Some errText)
                   else if rxTest (litCI ''unsupported_parameter'') errText \<and>
                           rxTest (litCI ''tool_choice'') errText
                   then (NextFormat, log', Some errText)
                   else (NextCap, log', Some errText)))"

fun formatLoop_contentScript ::
  "network \<Rightarrow> request list \<Rightarrow> jsstring option \<Rightarrow> settings \<Rightarrow> jsstring \<Rightarrow> jsstring \<Rightarrow> jsstring \<Rightarrow>
   int option \<Rightarrow> bool \<Rightarrow> bool list \<Rightarrow> roundEnd \<times> request list \<times> jsstring option" where
  "formatLoop_contentScript net log lastErrText st system user key cap lastCap [] = (NextCap, log, lastErrText)"
| "formatLoop_contentScript net log lastErrText st system user key cap lastCap (useTextFormat # rest) =
     (case responsesRound_contentScript net log lastErrText st system user key cap lastCap useTextFormat of
        (NextFormat, log', lastErrText') \<Rightarrow>
          formatLoop_contentScript net log' lastErrText' st system user key cap lastCap rest
      | end \<Rightarrow> end)"

fun capLoop_contentScript ::
  "network \<Rightarrow> request list \<Rightarrow> jsstring option \<Rightarrow> settings \<Rightarrow> jsstring \<Rightarrow> jsstring \<Rightarrow> jsstring \<Rightarrow>
   int option list \<Rightarrow> (jsError + jsstring) \<times> request list" where
  "capLoop_contentScript net log lastErrText st system user key [] =
     (Inl (Error (js ''OpenAI error (responses): '' @
                  (case lastErrText of
                     None \<Rightarrow> js ''unknown error''
                   | Some t \<Rightarrow> if t = [] then js ''unknown error'' else t))),
      log)"
| "capLoop_contentScript net log lastErrText st system user key (cap # rest) =
     (case formatLoop_contentScript net log lastErrText st system user key cap (rest = []) [True, False] of
        (Returned s, log', lastErrText') \<Rightarrow> (Inr s, log')
      | (Thrown e, log', lastErrText') \<Rightarrow> (Inl e, log')
      | (end, log', lastErrText') \<Rightarrow> capLoop_contentScript net log' lastErrText' st system user key rest)"

definition summarizeWithOpenAIResponses_contentScript ::
  "network \<Rightarrow> request list \<Rightarrow> jsstring \<Rightarrow> jsstring \<Rightarrow> settings \<Rightarrow>
   (jsError + jsstring) \<times> request list" where
  "summarizeWithOpenAIResponses_contentScript net log system user st =
     (let key = trim (apiKey st)
      in case validateHeaderByteString_contentScript (js ''Authorization'') (js ''Bearer '' @ key) of
           Some e \<Rightarrow> (Inl e, log)
         | None \<Rightarrow>
             (case validateHeaderByteString_contentScript (js ''Content-Type'') (js ''application/json'') of
                Some e \<Rightarrow> (Inl e, log)
              | None \<Rightarrow> capLoop_contentScript net log None st system user key [None, Some 512]))"

definition summarizeWithOpenAI_contentScript ::
  "network \<Rightarrow> request list \<Rightarrow> jsstring \<Rightarrow> settings \<Rightarrow> (jsError + jsstring) \<times> request list" where
  "summarizeWithOpenAI_contentScript net log text st =
     (if apiKey st = []
      then (Inl (Error (js ''OpenAI API key not set. Configure it in the extension Options.'')), log)
      else
        let (system, user) = buildPrompt text st;
            modelName = toLowerCase (model st)
        in if startsWith (js ''gpt-5'') modelName
           then summarizeWithOpenAIResponses_contentScript net log system user st
           else
             let key = trim (apiKey st)
             in case validateHeaderByteString_contentScript (js ''Authorization'') (js ''Bearer '' @ key) of
                  Some e \<Rightarrow> (Inl e, log)
                | None \<Rightarrow>
                    (case validateHeaderByteString_contentScript (js ''Content-Type'') (js ''application/json'') of
                       Some e \<Rightarrow> (Inl e, log)
                     | None \<Rightarrow>
                         let req = apiRequest chatUrl key (chatBody st system user);
                             log' = log @ [req]
                         in case net (length log) req of
                              Inl e \<Rightarrow> (Inl e, log')
                            | Inr chatRes \<Rightarrow>
                                if ok chatRes
                                then (case bodyJson chatRes of
                                        Inl e \<Rightarrow> (Inl e, log')
                                      | Inr chatData \<Rightarrow>
                                          (case propQ (propQ (index0Q (propQ (Some chatData)
                                                  ''choices'')) ''message'') ''content'' of
                                             Some (JStr content) \<Rightarrow>
                                               if content \<noteq> []
                                               then (Inr (sanitizeOneLine content), log')
                                               else (Inl (Error (js ''No summary returned by OpenAI'')),
                                                     log')
                                           | other \<Rightarrow>
                                               (Inl (Error (js ''No summary returned by OpenAI'')),
                                                log')))
                                else
                                  let errText = safeText chatRes
                                  in if status chatRes = 400 \<and> rxTest maxTokensRx errText \<and>
                                        rxTest maxCompletionTokensRx errText
                                     then summarizeWithOpenAIResponses_contentScript net log' system user st
                                     else (Inl (Error (js ''OpenAI error ('' @
                                                       showNat (status chatRes) @ js ''): '' @
                                                       errText)),
                                           log')))"

section \<open>The parse step of \<open>src/background.js\<close>\<close>

text \<open>
  \<open>s.match(re)\<close> for an expression without the \<open>g\<close> flag that has one capture group and
  is the sequence of a part before the group, the group and a part after it: the text
  captured by the leftmost match, \<open>None\<close> when there is no match. At a position the parts
  are tried in the order of the backtracking matcher.
\<close>

definition matchGroup :: "rx \<Rightarrow> rx \<Rightarrow> rx \<Rightarrow> jsstring \<Rightarrow> jsstring option" where
  "matchGroup pre grp post s =
     firstSome
       (\<lambda>s1. firstSome
                (\<lambda>s2. if rxm post s2 \<noteq> [] then Some (take (length s1 - length s2) s1) else None)
                (rxm grp s1))
       (rxm pre s)"

fun searchGroup :: "rx \<Rightarrow> rx \<Rightarrow> rx \<Rightarrow> jsstring \<Rightarrow> jsstring option" where
  "searchGroup pre grp post [] = matchGroup pre grp post []"
| "searchGroup pre grp post (c # cs) =
     (case matchGroup pre grp post (c # cs) of
        Some g \<Rightarrow> Some g
      | None \<Rightarrow> searchGroup pre grp post cs)"

definition anyChar :: rx where
  "anyChar = Chr (\<lambda>_. True)"

definition notGt :: rx where
  "notGt = Chr (\<lambda>x. x \<noteq> 62)"

definition notLt :: rx where
  "notLt = Chr (\<lambda>x. x \<noteq> 60)"

text \<open>\<open>["']\<close> and \<open>[^"']\<close>\<close>

definition quote :: rx where
  "quote = Chr (\<lambda>x. x = 34 \<or> x = 39)"

definition notQuote :: rx where
  "notQuote = Chr (\<lambda>x. x \<noteq> 34 \<and> x \<noteq> 39)"

text \<open>\<open>/<[^>]*>/g\<close> at a position, and \<open>/\n+/g\<close>.\<close>

definition reTagAny :: "jsstring \<Rightarrow> nat option" where
  "reTagAny s =
     (case s of
        [] \<Rightarrow> None
      | c # cs \<Rightarrow>
          let n = length (takeWhile (\<lambda>x. x \<noteq> 62) cs)
          in if c = 60 \<and> n < length cs then Some (n + 2) else None)"

definition reNewlineRun :: "jsstring \<Rightarrow> nat option" where
  "reNewlineRun s =
     (let n = length (takeWhile (\<lambda>x. x = 10) s) in if n = 0 then None else Some n)"

text \<open>\<open>x.replace(/<[^>]*>/g, ' ').replace(/\s+/g, ' ').trim()\<close>\<close>

definition stripTags :: "jsstring \<Rightarrow> jsstring" where
  "stripTags s = trim (collapseWhite (replaceAll reTagAny (\<lambda>_. [32]) s))"

text \<open>
  The expressions of \<open>tryParse\<close>, each as the part before its group, the group and the
  part after it: \<open>/<title[^>]*>([^<]+)<\/title>/i\<close>,
  \<open>/<meta[^>]*name=["']description["'][^>]*content=["']([^"']+)["'][^>]*>/i\<close>,
  \<open>/<meta[^>]*property=["']og:description["'][^>]*content=["']([^"']+)["'][^>]*>/i\<close> and
  \<open>/<body[^>]*>([\s\S]*?)<\/body>/i\<close>.
\<close>

definition titleRx :: "rx \<times> rx \<times> rx" where
  "titleRx = (cats [litCI ''<title'', Star notGt, ch CHR ''>''], plus notLt, litCI ''</title>'')"

definition metaRx :: "string \<Rightarrow> string \<Rightarrow> rx \<times> rx \<times> rx" where
  "metaRx attr val =
     (cats [litCI ''<meta'', Star notGt, litCI attr, ch CHR ''='', quote, litCI val, quote,
            Star notGt, litCI ''content='', quote],
      plus notQuote,
      cats [quote, Star notGt, ch CHR ''>''])"

definition blockRx :: "string \<Rightarrow> rx \<times> rx \<times> rx" where
  "blockRx tag =
     (cats [ch CHR ''<'', litCI tag, Star notGt, ch CHR ''>''],
      StarLazy anyChar,
      cats [litCI ''</'', litCI tag, ch CHR ''>''])"

text \<open>\<open>/<div[^>]*class=["'][^"']*NAME[^"']*["'][^>]*>([\s\S]*?)<\/div>/i\<close>\<close>

definition divClassRx :: "string \<Rightarrow> rx \<times> rx \<times> rx" where
  "divClassRx name =
     (cats [litCI ''<div'', Star notGt, litCI ''class='', quote, Star notQuote, litCI name,
            Star notQuote, quote, Star notGt, ch CHR ''>''],
      StarLazy anyChar,
      litCI ''</div>'')"

definition contentSelectors :: "(rx \<times> rx \<times> rx) list" where
  "contentSelectors =
     [blockRx ''main'', blockRx ''article'', divClassRx ''content'', divClassRx ''post-content'',
      divClassRx ''entry-content'', divClassRx ''article-content'', divClassRx ''story-content'']"

definition matchOf :: "rx \<times> rx \<times> rx \<Rightarrow> jsstring \<Rightarrow> jsstring option" where
  "matchOf re s = (case re of (pre, grp, post) \<Rightarrow> searchGroup pre grp post s)"

text \<open>
  \<open>tryParse\<close> of \<open>src/background.js\<close>, which works with regular expressions only
  (\<open>// Use regex-based parsing since DOMParser is not available in background scripts\<close>).
\<close>

definition tryParse_background :: "jsstring \<Rightarrow> jsstring" where
  "tryParse_background html =
     (let title = (case matchOf titleRx html of None \<Rightarrow> [] | Some g \<Rightarrow> trim g);
          metaDesc = (case matchOf (metaRx ''name'' ''description'') html of
                        None \<Rightarrow> [] | Some g \<Rightarrow> trim g);
          ogDesc = (case matchOf (metaRx ''property'' ''og:description'') html of
                      None \<Rightarrow> [] | Some g \<Rightarrow> trim g);
          mainContent =
            (case firstSome
                    (\<lambda>selector.
                       case matchOf selector html of
                         None \<Rightarrow> None
                       | Some g \<Rightarrow>
                           if g \<noteq> [] \<and> length (stripTags g) > 200 then Some (stripTags g)
                           else None)
                    contentSelectors of
               None \<Rightarrow> []
             | Some text \<Rightarrow> text);
          bodyContent = (case matchOf (blockRx ''body'') html of
                           None \<Rightarrow> [] | Some g \<Rightarrow> stripTags g);
          combinedContent =
            (if mainContent \<noteq> [] \<and> length mainContent > 200 then mainContent
             else if metaDesc \<noteq> [] \<and> length metaDesc > 100 then metaDesc
             else if ogDesc \<noteq> [] \<and> length ogDesc > 100 then ogDesc
             else if bodyContent \<noteq> [] \<and> length bodyContent > 200 then bodyContent
             else [])
      in if combinedContent \<noteq> []
         then
           (let cleaned = trim (replaceAll reNewlineRun (\<lambda>_. [32]) (collapseWhite combinedContent))
            in if title \<noteq> [] \<and> \<not> includesStr title cleaned then title @ js ''. '' @ cleaned
               else cleaned)
         else if title \<noteq> [] \<or> metaDesc \<noteq> [] \<or> ogDesc \<noteq> []
         then joinWith (js ''. '') (filter (\<lambda>x. x \<noteq> []) [title, metaDesc, ogDesc])
         else
           (let textContent = stripTags html
            in if length textContent > 100 then take 2000 textContent else []))"

section \<open>Examples\<close>

text \<open>
  For the examples: a document object model whose only candidate is an \<open>article\<close> element
  with a text of 500 letters.
\<close>

definition exampleDom :: "(unit, nat) dom" where
  "exampleDom =
     \<lparr>parseFromString = (\<lambda>html. Some ()),
      removeAll = (\<lambda>d sel. d),
      removeWithin = (\<lambda>d e sel. d),
      querySelector = (\<lambda>d sel. if sel = js ''article'' then Some 0 else None),
      querySelectorAll = (\<lambda>d sel. []),
      querySelectorAllWithin = (\<lambda>d e sel. []),
      innerText = (\<lambda>d e. Some (replicate 500 97)),
      textContent = (\<lambda>d e. None)\<rparr>"



text \<open>
  For the examples: a URL parser that knows three URLs, a network whose first request is
  rejected and whose second is answered by a redirect to the publisher, and a list of
  collected links that mixes a social-media link, a link of the intermediary, a text that
  is no URL and a publisher link.
\<close>

definition exampleUrlApi :: urlApi where
  "exampleUrlApi =
     (let known = map (\<lambda>(h, host, path). (js h, \<lparr>href = js h, hostname = js host, pathname = js path\<rparr>))
            [(''https://publisher.example/2025/08/14/story-title'', ''publisher.example'',
              ''/2025/08/14/story-title''),
             (''https://www.facebook.com/publisher/posts/2025/08/14/story'', ''www.facebook.com'',
              ''/publisher/posts/2025/08/14/story''),
             (''https://news.google.com/read/abc'', ''news.google.com'', ''/read/abc'')]
      in \<lparr>newURL = map_of known, newURLBase = (\<lambda>h b. map_of known h)\<rparr>)"

definition netRedirectOnRetry :: network where
  "netRedirectOnRetry i req =
     (if i = 0 then Inl (Error (js ''Failed to fetch''))
      else Inr \<lparr>status = 302,
                headersGet = (\<lambda>n. if n = js ''Location''
                                   then Some (js ''https://publisher.example/2025/08/14/story-title'')
                                   else None),
                bodyText = Inr [], bodyJson = Inl (Error [])\<rparr>)"

definition exampleHrefs :: "jsstring list" where
  "exampleHrefs =
     map js [''https://www.facebook.com/publisher/posts/2025/08/14/story'',
             ''https://news.google.com/read/abc'',
             ''not a url'',
             ''https://publisher.example/2025/08/14/story-title'']"

text \<open>
  For the scanner: a page whose first link leads to a national site of Google, on a host
  that holds none of the four texts of \<open>isGoogleDomain\<close>, and whose second link leads to
  the publisher.
\<close>

definition googleUkUrlApi :: urlApi where
  "googleUkUrlApi =
     (let known = map (\<lambda>(h, host, path). (js h, \<lparr>href = js h, hostname = js host, pathname = js path\<rparr>))
            [(''https://www.google.co.uk/world/some-story'', ''www.google.co.uk'',
              ''/world/some-story''),
             (''https://publisher.example/2025/08/14/story-title'', ''publisher.example'',
              ''/2025/08/14/story-title'')]
      in \<lparr>newURL = map_of known, newURLBase = (\<lambda>h b. map_of known h)\<rparr>)"

definition googleUkHrefs :: "jsstring list" where
  "googleUkHrefs =
     map js [''https://www.google.co.uk/world/some-story'',
             ''https://publisher.example/2025/08/14/story-title'']"

text \<open>
  For the examples of the engine: settings with a chat model, with a model of the newer
  family, with a key that holds an ellipsis, and with a key followed by a no-break space;
  a network that answers the chat shape with status 400 naming both token parameters and
  the structured shape with a text, and one that answers the chat shape with a summary.
\<close>

definition stChat :: settings where
  "stChat = \<lparr>provider = js ''openai'', model = js ''o1-mini'', apiKey = js ''sk-test'',
             systemPrompt = []\<rparr>"

definition stEllipsis :: settings where
  "stEllipsis = \<lparr>provider = js ''openai'', model = js ''gpt-4o'',
                 apiKey = js ''sk-abc'' @ [8230] @ js ''xyz'', systemPrompt = []\<rparr>"

definition stPadded :: settings where
  "stPadded = \<lparr>provider = js ''openai'', model = js ''gpt-4o'', apiKey = js ''sk-abc'' @ [160],
               systemPrompt = []\<rparr>"

text \<open>
  Settings whose key is the ellipsis U+2026 alone, and settings whose key ends in the
  letter U+00E9 (233).
\<close>

definition stDots :: settings where
  "stDots = \<lparr>provider = js ''openai'', model = js ''gpt-4o'', apiKey = [8230],
             systemPrompt = []\<rparr>"

definition stAccent :: settings where
  "stAccent = \<lparr>provider = js ''openai'', model = js ''gpt-4o'', apiKey = js ''sk-abc'' @ [233],
               systemPrompt = []\<rparr>"

definition netScenarioD :: network where
  "netScenarioD i req =
     (if url req = chatUrl
      then Inr \<lparr>status = 400, headersGet = (\<lambda>_. None),
                bodyText = Inr (js ''Unsupported parameter: max_tokens. Use max_completion_tokens.''),
                bodyJson = Inl (Error [])\<rparr>
      else Inr \<lparr>status = 200, headersGet = (\<lambda>_. None), bodyText = Inr [],
                bodyJson = Inr (JObj [(js ''output_text'',
                                       JStr (js ''  The   markets rallied today.'' @ [10]))])\<rparr>)"

definition netChatOk :: network where
  "netChatOk i req =
     Inr \<lparr>status = 200, headersGet = (\<lambda>_. None), bodyText = Inr [],
          bodyJson = Inr (JObj [(js ''choices'',
                        JArr [JObj [(js ''message'',
                                     JObj [(js ''content'', JStr (js ''Markets rallied.''))])]])])\<rparr>"

definition stGpt5 :: settings where
  "stGpt5 = \<lparr>provider = js ''openai'', model = js ''GPT-5-nano'', apiKey = js ''sk-test'',
             systemPrompt = []\<rparr>"

section \<open>Facts about white space\<close>

lemma hasDoubleSpace_Cons:
  "hasDoubleSpace (c # r) \<longleftrightarrow> (c = 32 \<and> (\<exists>ys. r = 32 # ys)) \<or> hasDoubleSpace r"
  by (auto simp: hasDoubleSpace_def Cons_eq_append_conv)

lemma hasDoubleSpace_Nil [simp]: "\<not> hasDoubleSpace []"
  by (simp add: hasDoubleSpace_def)

lemma hasDoubleSpace_part:
  "hasDoubleSpace t \<Longrightarrow> hasDoubleSpace (a @ t @ b)"
proof -
  assume "hasDoubleSpace t"
  then obtain xs ys where "t = xs @ [32, 32] @ ys"
    by (auto simp: hasDoubleSpace_def)
  then have "a @ t @ b = (a @ xs) @ [32, 32] @ (ys @ b)"
    by simp
  then show ?thesis
    unfolding hasDoubleSpace_def by blast
qed

lemma singleSpaced_part:
  "singleSpaced (a @ t @ b) \<Longrightarrow> singleSpaced t"
  using hasDoubleSpace_part [of t a b] by (auto simp: singleSpaced_def)

lemma trim_part: "\<exists>a b. s = a @ trim s @ b"
proof -
  let ?d = "dropWhile isWhiteSpace s"
  have 1: "s = takeWhile isWhiteSpace s @ ?d"
    by simp
  have "?d = rev (takeWhile isWhiteSpace (rev ?d) @ dropWhile isWhiteSpace (rev ?d))"
    by (simp only: takeWhile_dropWhile_id rev_rev_ident)
  also have "\<dots> = rev (dropWhile isWhiteSpace (rev ?d)) @ rev (takeWhile isWhiteSpace (rev ?d))"
    by (rule rev_append)
  finally have 2: "?d = trim s @ rev (takeWhile isWhiteSpace (rev ?d))"
    by (simp only: trim_def)
  from 1 2 have "s = takeWhile isWhiteSpace s @ trim s @ rev (takeWhile isWhiteSpace (rev ?d))"
    by simp
  then show ?thesis by blast
qed

lemma length_trim: "length (trim s) \<le> length s"
proof -
  obtain a b where "s = a @ trim s @ b"
    using trim_part by blast
  then have "length s = length a + length (trim s) + length b"
    by (metis length_append add.assoc)
  then show ?thesis by simp
qed

lemma singleSpaced_trim: "singleSpaced s \<Longrightarrow> singleSpaced (trim s)"
  using trim_part [of s] singleSpaced_part by metis

lemma singleSpaced_take: "singleSpaced s \<Longrightarrow> singleSpaced (take n s)"
  using singleSpaced_part [of "[]" "take n s" "drop n s"] by simp

lemma trimmed_trim: "trimmed (trim s)"
proof -
  let ?d = "dropWhile isWhiteSpace s"
  let ?e = "dropWhile isWhiteSpace (rev ?d)"
  have "\<not> isWhiteSpace (hd (trim s)) \<and> \<not> isWhiteSpace (last (trim s))" if ne: "trim s \<noteq> []"
  proof -
    from ne have e: "?e \<noteq> []"
      by (simp add: trim_def)
    have "?d = [] \<Longrightarrow> ?e = []"
      by (simp only: rev.simps dropWhile.simps)
    with e have d: "?d \<noteq> []"
      by blast
    have "last (trim s) = hd ?e"
      using e by (simp add: trim_def last_rev)
    moreover have "\<not> isWhiteSpace (hd ?e)"
      using e hd_dropWhile by blast
    moreover have "hd (trim s) = last ?e"
      using e by (simp add: trim_def hd_rev)
    moreover have "last ?e = last (rev ?d)"
      using e by (metis append_Nil2 last_appendR takeWhile_dropWhile_id)
    moreover have "last (rev ?d) = hd ?d"
      using d by (simp add: last_rev)
    moreover have "\<not> isWhiteSpace (hd ?d)"
      using d hd_dropWhile by blast
    ultimately show ?thesis by simp
  qed
  then show ?thesis
    by (simp add: trimmed_def)
qed

lemma collapseWhite_Nil [simp]: "collapseWhite [] = []"
  by (simp add: collapseWhite_def reWhiteRun_def)

lemma collapseWhite_Cons:
  "collapseWhite (c # cs) =
     (if isWhiteSpace c then 32 # collapseWhite (dropWhile isWhiteSpace cs)
      else c # collapseWhite cs)"
  by (simp add: collapseWhite_def reWhiteRun_def dropWhile_eq_drop)

lemma collapseWhite_props:
  "singleSpaced (collapseWhite s) \<and>
   (s \<noteq> [] \<and> \<not> isWhiteSpace (hd s) \<longrightarrow> (\<exists>r. collapseWhite s = hd s # r))"
proof (induction s rule: length_induct)
  case (1 s)
  show ?case
  proof (cases s)
    case Nil
    then show ?thesis by (simp add: singleSpaced_def)
  next
    case (Cons c cs)
    show ?thesis
    proof (cases "isWhiteSpace c")
      case False
      have "singleSpaced (collapseWhite cs)"
        using 1 Cons by simp
      with False have "singleSpaced (c # collapseWhite cs)"
        by (auto simp: singleSpaced_def hasDoubleSpace_Cons isWhiteSpace_def)
      with False Cons show ?thesis
        by (simp add: collapseWhite_Cons)
    next
      case True
      let ?rest = "dropWhile isWhiteSpace cs"
      have len: "length ?rest < length s"
        using Cons by (simp add: length_dropWhile_le less_Suc_eq_le)
      then have ih: "singleSpaced (collapseWhite ?rest)"
        and hd: "?rest \<noteq> [] \<and> \<not> isWhiteSpace (hd ?rest) \<longrightarrow>
                  (\<exists>r. collapseWhite ?rest = hd ?rest # r)"
        using 1 by blast+
      have "\<not> (\<exists>ys. collapseWhite ?rest = 32 # ys)"
      proof (cases "?rest = []")
        case True
        show ?thesis
          unfolding True by simp
      next
        case False
        then have nw: "\<not> isWhiteSpace (hd ?rest)"
          using hd_dropWhile by blast
        with False hd obtain r where "collapseWhite ?rest = hd ?rest # r"
          by blast
        moreover have "hd ?rest \<noteq> 32"
          using nw by (auto simp: isWhiteSpace_def)
        ultimately show ?thesis by simp
      qed
      with ih have "singleSpaced (32 # collapseWhite ?rest)"
        by (auto simp: singleSpaced_def hasDoubleSpace_Cons)
      with True Cons show ?thesis
        by (simp add: collapseWhite_Cons)
    qed
  qed
qed

lemma singleSpaced_collapseWhite: "singleSpaced (collapseWhite s)"
  using collapseWhite_props by blast

lemma singleSpaced_snoc:
  assumes "singleSpaced t" and "\<not> isWhiteSpace x"
  shows "singleSpaced (t @ [x])"
proof -
  have "\<not> hasDoubleSpace (t @ [x])"
  proof
    assume "hasDoubleSpace (t @ [x])"
    then obtain xs ys where eq: "t @ [x] = xs @ 32 # 32 # ys"
      by (auto simp: hasDoubleSpace_def)
    show False
    proof (cases ys rule: rev_cases)
      case Nil
      with eq have "x = 32"
        by (metis append_Cons append_Nil last_snoc last.simps list.distinct(1) last_append)
      with assms(2) show False
        by (simp add: isWhiteSpace_def)
    next
      case (snoc ys' y)
      with eq have "t @ [x] = (xs @ 32 # 32 # ys') @ [y]"
        by simp
      then have "t = xs @ 32 # 32 # ys'"
        by (metis append1_eq_conv)
      then have "hasDoubleSpace t"
        by (auto simp: hasDoubleSpace_def)
      with assms(1) show False
        by (simp add: singleSpaced_def)
    qed
  qed
  with assms show ?thesis
    by (auto simp: singleSpaced_def)
qed

lemma trimmed_snoc:
  assumes "trimmed t" and "\<not> isWhiteSpace x"
  shows "trimmed (t @ [x])"
  using assms by (cases t) (auto simp: trimmed_def)

lemma singleSpaced_no_newline:
  "singleSpaced s \<Longrightarrow> 10 \<notin> set s \<and> 13 \<notin> set s \<and> 8232 \<notin> set s \<and> 8233 \<notin> set s"
  by (auto simp: singleSpaced_def isWhiteSpace_def)

section \<open>Output sanitization: the one-line summary\<close>

lemma oneLine_core:
  "singleSpaced (trim (collapseWhite s)) \<and> trimmed (trim (collapseWhite s))"
  by (simp add: singleSpaced_trim singleSpaced_collapseWhite trimmed_trim)

lemma oneLine_cut:
  "singleSpaced (trim (take n (trim (collapseWhite s)))) \<and>
   trimmed (trim (take n (trim (collapseWhite s)))) \<and>
   length (trim (take n (trim (collapseWhite s)))) \<le> n"
proof -
  have "length (trim (take n (trim (collapseWhite s)))) \<le> length (take n (trim (collapseWhite s)))"
    by (rule length_trim)
  then have "length (trim (take n (trim (collapseWhite s)))) \<le> n"
    by simp
  then show ?thesis
    by (simp add: singleSpaced_trim singleSpaced_take singleSpaced_collapseWhite trimmed_trim)
qed

lemma ellipsis_not_white: "\<not> isWhiteSpace 8230"
  by (simp add: isWhiteSpace_def)

text \<open>
  C1 (as amended). For every raw model output \<open>s\<close>, the summary returned by
  \<open>sanitizeOneLine\<close> is single-spaced (its only white space is the space character, never
  two in a row), trimmed, free of line terminators, and at most 201 code units long: at most
  200 units of text followed, exactly when the collapsed and trimmed output is longer than
  200, by one ellipsis U+2026; otherwise it is the collapsed and trimmed output itself.
  The copy in \<open>background.js\<close> is single-spaced, trimmed, free of line terminators and
  within the same bound as well.
\<close>

theorem sanitizeOneLine_one_line:
  "singleSpaced (sanitizeOneLine s) \<and> trimmed (sanitizeOneLine s) \<and>
   10 \<notin> set (sanitizeOneLine s) \<and> 13 \<notin> set (sanitizeOneLine s) \<and>
   length (sanitizeOneLine s) \<le> 201 \<and>
   (200 < length (trim (collapseWhite s)) \<longrightarrow>
      sanitizeOneLine s = trim (take 200 (trim (collapseWhite s))) @ [8230]) \<and>
   (length (trim (collapseWhite s)) \<le> 200 \<longrightarrow>
      sanitizeOneLine s = trim (collapseWhite s)) \<and>
   singleSpaced (sanitizeOneLine_background s) \<and> trimmed (sanitizeOneLine_background s) \<and>
   10 \<notin> set (sanitizeOneLine_background s) \<and> 13 \<notin> set (sanitizeOneLine_background s) \<and>
   length (sanitizeOneLine_background s) \<le> 201"
proof -
  let ?one = "trim (collapseWhite s)"
  let ?cut = "trim (take 200 ?one)"
  have cut: "singleSpaced ?cut" "trimmed ?cut" "length ?cut \<le> 200"
    using oneLine_cut [of 200 s] by simp_all
  have one: "singleSpaced ?one" "trimmed ?one"
    using oneLine_core [of s] by simp_all
  have a: "singleSpaced (sanitizeOneLine s) \<and> trimmed (sanitizeOneLine s) \<and>
      length (sanitizeOneLine s) \<le> 201"
  proof (cases "200 < length ?one")
    case True
    then have "sanitizeOneLine s = ?cut @ [8230]"
      by (simp add: sanitizeOneLine_def)
    with cut show ?thesis
      by (simp add: singleSpaced_snoc trimmed_snoc ellipsis_not_white)
  next
    case False
    then have "sanitizeOneLine s = ?one"
      by (simp add: sanitizeOneLine_def)
    with one False show ?thesis
      by simp
  qed
  have b: "singleSpaced (sanitizeOneLine_background s) \<and> trimmed (sanitizeOneLine_background s) \<and>
      length (sanitizeOneLine_background s) \<le> 201"
  proof (cases "200 < length ?one")
    case True
    then have "sanitizeOneLine_background s = ?cut"
      by (simp add: sanitizeOneLine_background_def)
    with cut show ?thesis
      by simp
  next
    case False
    then have "sanitizeOneLine_background s = ?one"
      by (simp add: sanitizeOneLine_background_def)
    with one False show ?thesis
      by simp
  qed
  have c: "(200 < length ?one \<longrightarrow> sanitizeOneLine s = ?cut @ [8230]) \<and>
      (length ?one \<le> 200 \<longrightarrow> sanitizeOneLine s = ?one)"
    by (simp add: sanitizeOneLine_def)
  from a b c singleSpaced_no_newline [of "sanitizeOneLine s"]
    singleSpaced_no_newline [of "sanitizeOneLine_background s"]
  show ?thesis
    by blast
qed

text \<open>
  The theorem at an output of 150 letters, a space, a line feed, a space and 150 more
  letters: the collapsed text has 301 units, so the summary is cut and carries the ellipsis.
\<close>

theorem sanitizeOneLine_one_line_witness:
  "200 < length (trim (collapseWhite (replicate 150 97 @ [32, 10, 32] @ replicate 150 98))) \<and>
   32 \<in> set (sanitizeOneLine (replicate 150 97 @ [32, 10, 32] @ replicate 150 98)) \<and>
   singleSpaced (sanitizeOneLine (replicate 150 97 @ [32, 10, 32] @ replicate 150 98)) \<and>
   length (sanitizeOneLine (replicate 150 97 @ [32, 10, 32] @ replicate 150 98)) \<le> 201 \<and>
   sanitizeOneLine (replicate 150 97 @ [32, 10, 32] @ replicate 150 98) =
     trim (take 200 (trim (collapseWhite (replicate 150 97 @ [32, 10, 32] @ replicate 150 98)))) @ [8230]"
proof -
  have h: "200 < length (trim (collapseWhite (replicate 150 97 @ [32, 10, 32] @ replicate 150 98)))"
    by code_simp
  have m: "32 \<in> set (sanitizeOneLine (replicate 150 97 @ [32, 10, 32] @ replicate 150 98))"
    by code_simp
  show ?thesis
    using h m sanitizeOneLine_one_line [of "replicate 150 97 @ [32, 10, 32] @ replicate 150 98"]
    by blast
qed

text \<open>
  Scenario E of the specification, in both copies.
\<close>

lemma sanitizeOneLine_scenario_E:
  "sanitizeOneLine (js ''  The   markets rallied today.'' @ [10]) = js ''The markets rallied today.'' \<and>
   sanitizeOneLine_background (js ''  The   markets rallied today.'' @ [10]) =
     js ''The markets rallied today.''"
  by code_simp

text \<open>
  The claim as stated fails on 201 letters. In \<open>contentScript.js\<close> the summary is the first
  200 of them and the ellipsis, 201 units in all, above the bound of 200; in
  \<open>background.js\<close> it is the first 200 letters and carries no ellipsis.
\<close>

theorem sanitizeOneLine_cap_counterexample:
  "\<not> length (sanitizeOneLine (replicate 201 97)) \<le> 200 \<and>
   sanitizeOneLine_background (replicate 201 97) = replicate 200 97"
  by code_simp

section \<open>The normalizer and the extractor\<close>

lemma htmlToText_cases:
  "htmlToText html = [] \<or>
   (\<exists>h. htmlToText html = take 20000 (trim (collapseWhite h)) \<and>
        20000 < length (trim (collapseWhite h))) \<or>
   (\<exists>h. htmlToText html = trim (collapseWhite h) \<and> length (trim (collapseWhite h)) \<le> 20000)"
  by (auto simp: htmlToText_def Let_def)

lemma singleSpaced_Nil: "singleSpaced []"
  by (simp add: singleSpaced_def)

subsection \<open>No tag is left\<close>

lemma hasTag_Nil [simp]: "\<not> hasTag []"
  by (simp add: hasTag_def)

lemma tag_tail:
  "(\<exists>m b. r = m @ 62 # b \<and> m \<noteq> [] \<and> 62 \<notin> set m) \<longleftrightarrow>
     r \<noteq> [] \<and> hd r \<noteq> (62::nat) \<and> 62 \<in> set r"
proof
  assume "\<exists>m b. r = m @ 62 # b \<and> m \<noteq> [] \<and> 62 \<notin> set m"
  then obtain m b where r: "r = m @ 62 # b" and m: "m \<noteq> []" "62 \<notin> set m"
    by blast
  from m have "hd m \<noteq> 62"
    by (cases m) auto
  with r m show "r \<noteq> [] \<and> hd r \<noteq> 62 \<and> 62 \<in> set r"
    by simp
next
  assume a: "r \<noteq> [] \<and> hd r \<noteq> 62 \<and> 62 \<in> set r"
  let ?m = "takeWhile (\<lambda>x. x \<noteq> 62) r"
  let ?d = "dropWhile (\<lambda>x. x \<noteq> 62) r"
  from a have d: "?d \<noteq> []"
    by auto
  then have "hd ?d = 62"
    using hd_dropWhile [of "\<lambda>x. x \<noteq> 62" r] by simp
  with d obtain b where b: "?d = 62 # b"
    by (cases ?d) auto
  have "r = ?m @ ?d"
    by simp
  with b have r: "r = ?m @ 62 # b"
    by simp
  from a have "?m \<noteq> []"
    by (cases r) auto
  moreover have "62 \<notin> set ?m"
    using set_takeWhileD by fastforce
  ultimately show "\<exists>m b. r = m @ 62 # b \<and> m \<noteq> [] \<and> 62 \<notin> set m"
    using r by blast
qed

lemma hasTag_part: "hasTag t \<Longrightarrow> hasTag (a @ t @ b)"
proof -
  assume "hasTag t"
  then obtain x m y where "t = x @ [60] @ m @ [62] @ y" "m \<noteq> []" "62 \<notin> set m"
    by (auto simp: hasTag_def)
  then have "a @ t @ b = (a @ x) @ [60] @ m @ [62] @ (y @ b) \<and> m \<noteq> [] \<and> 62 \<notin> set m"
    by simp
  then show ?thesis
    unfolding hasTag_def by blast
qed

lemma hasTag_Cons:
  "hasTag (c # r) \<longleftrightarrow> (c = 60 \<and> r \<noteq> [] \<and> hd r \<noteq> 62 \<and> 62 \<in> set r) \<or> hasTag r"
proof -
  have "hasTag (c # r) \<longleftrightarrow>
      (c = 60 \<and> (\<exists>m b. r = m @ 62 # b \<and> m \<noteq> [] \<and> 62 \<notin> set m)) \<or> hasTag r"
  proof
    assume "hasTag (c # r)"
    then obtain a m b where e: "c # r = a @ 60 # m @ 62 # b" and m: "m \<noteq> []" "62 \<notin> set m"
      by (auto simp: hasTag_def)
    show "(c = 60 \<and> (\<exists>m b. r = m @ 62 # b \<and> m \<noteq> [] \<and> 62 \<notin> set m)) \<or> hasTag r"
    proof (cases a)
      case Nil
      with e m show ?thesis
        by auto
    next
      case (Cons x a')
      with e have "r = a' @ [60] @ m @ [62] @ b"
        by simp
      with m have "hasTag r"
        unfolding hasTag_def by blast
      then show ?thesis ..
    qed
  next
    assume "(c = 60 \<and> (\<exists>m b. r = m @ 62 # b \<and> m \<noteq> [] \<and> 62 \<notin> set m)) \<or> hasTag r"
    then show "hasTag (c # r)"
    proof
      assume "c = 60 \<and> (\<exists>m b. r = m @ 62 # b \<and> m \<noteq> [] \<and> 62 \<notin> set m)"
      then obtain m b where "c # r = [] @ [60] @ m @ [62] @ b" "m \<noteq> []" "62 \<notin> set m"
        by auto
      then show ?thesis
        unfolding hasTag_def by blast
    next
      assume "hasTag r"
      then show ?thesis
        using hasTag_part [of r "[c]" "[]"] by simp
    qed
  qed
  then show ?thesis
    by (simp only: tag_tail)
qed

lemma hasTag_suffix: "hasTag (drop n s) \<Longrightarrow> hasTag s"
  using hasTag_part [of "drop n s" "take n s" "[]"] by simp

lemma hasTag_dropWhile: "hasTag (dropWhile P s) \<Longrightarrow> hasTag s"
  using hasTag_part [of "dropWhile P s" "takeWhile P s" "[]"] by simp

lemma stripped_Nil [simp]: "stripped [] = []"
  by (simp add: stripped_def reTag_def)

lemma stripped_Cons:
  "stripped (c # cs) =
     (let n = length (takeWhile (\<lambda>x. x \<noteq> 62) cs)
      in if c = 60 \<and> 0 < n \<and> n < length cs then 32 # stripped (drop (Suc n) cs)
         else c # stripped cs)"
  by (simp add: stripped_def reTag_def Let_def)

lemma stripped_set: "set (stripped s) \<subseteq> insert 32 (set s)"
proof (induction s rule: length_induct)
  case (1 s)
  show ?case
  proof (cases s)
    case Nil
    then show ?thesis by simp
  next
    case (Cons c cs)
    let ?n = "length (takeWhile (\<lambda>x. x \<noteq> 62) cs)"
    have a: "set (stripped cs) \<subseteq> insert 32 (set cs)"
      using 1 Cons by simp
    have "length (drop (Suc ?n) cs) < length s"
      using Cons by simp
    then have "set (stripped (drop (Suc ?n) cs)) \<subseteq> insert 32 (set (drop (Suc ?n) cs))"
      using 1 by blast
    moreover have "set (drop (Suc ?n) cs) \<subseteq> set cs"
      by (rule set_drop_subset)
    ultimately have b: "set (stripped (drop (Suc ?n) cs)) \<subseteq> insert 32 (set cs)"
      by blast
    from a b Cons show ?thesis
      by (auto simp: stripped_Cons Let_def)
  qed
qed

lemma stripped_no_tag: "\<not> hasTag (stripped s)"
proof (induction s rule: length_induct)
  case (1 s)
  show ?case
  proof (cases s)
    case Nil
    then show ?thesis by simp
  next
    case (Cons c cs)
    let ?n = "length (takeWhile (\<lambda>x. x \<noteq> 62) cs)"
    have ih: "\<not> hasTag (stripped cs)"
      using 1 Cons by simp
    show ?thesis
    proof (cases "c = 60 \<and> 0 < ?n \<and> ?n < length cs")
      case True
      have "length (drop (Suc ?n) cs) < length s"
        using Cons by simp
      then have "\<not> hasTag (stripped (drop (Suc ?n) cs))"
        using 1 by blast
      then have "\<not> hasTag (32 # stripped (drop (Suc ?n) cs))"
        by (simp add: hasTag_Cons)
      with True Cons show ?thesis
        by (simp add: stripped_Cons Let_def)
    next
      case False
      have "\<not> (c = 60 \<and> stripped cs \<noteq> [] \<and> hd (stripped cs) \<noteq> 62 \<and> 62 \<in> set (stripped cs))"
      proof
        assume a: "c = 60 \<and> stripped cs \<noteq> [] \<and> hd (stripped cs) \<noteq> 62 \<and> 62 \<in> set (stripped cs)"
        then have in_cs: "62 \<in> set cs"
          using stripped_set [of cs] by auto
        then have "dropWhile (\<lambda>x. x \<noteq> 62) cs \<noteq> []"
          by auto
        moreover have "length cs = ?n + length (dropWhile (\<lambda>x. x \<noteq> 62) cs)"
          by (metis length_append takeWhile_dropWhile_id)
        ultimately have lt: "?n < length cs"
          by simp
        with a False have "?n = 0"
          by simp
        then have "takeWhile (\<lambda>x. x \<noteq> 62) cs = []"
          by simp
        with in_cs obtain ds where cs: "cs = 62 # ds"
          by (cases cs) (auto split: if_splits)
        have "stripped cs = 62 # stripped ds"
          unfolding cs by (simp add: stripped_Cons Let_def)
        with a show False
          by simp
      qed
      with ih have "\<not> hasTag (c # stripped cs)"
        by (simp add: hasTag_Cons)
      moreover have "stripped (c # cs) = c # stripped cs"
        using False by (auto simp: stripped_Cons Let_def)
      ultimately show ?thesis
        using Cons by simp
    qed
  qed
qed

lemma decoded_Nil [simp]: "decoded [] = []"
  by (simp add: decoded_def reEntity_def entities_def startsWith_def js_def)

lemma decoded_Cons:
  "decoded (c # cs) =
     (if startsWith (js ''&nbsp;'') (c # cs) then 32 # decoded (drop 5 cs) else c # decoded cs)"
  by (auto simp: decoded_def reEntity_def entities_def startsWith_def js_def decodeEntity_def
      eval_nat_numeral)

lemma nbsp_head: "startsWith (js ''&nbsp;'') (c # cs) \<Longrightarrow> c = 38"
  by (auto simp: startsWith_def js_def)

lemma decoded_set: "set (decoded s) \<subseteq> insert 32 (set s)"
proof (induction s rule: length_induct)
  case (1 s)
  show ?case
  proof (cases s)
    case Nil
    then show ?thesis by simp
  next
    case (Cons c cs)
    have a: "set (decoded cs) \<subseteq> insert 32 (set cs)"
      using 1 Cons by simp
    have "length (drop 5 cs) < length s"
      using Cons by simp
    then have "set (decoded (drop 5 cs)) \<subseteq> insert 32 (set (drop 5 cs))"
      using 1 by blast
    moreover have "set (drop 5 cs) \<subseteq> set cs"
      by (rule set_drop_subset)
    ultimately have b: "set (decoded (drop 5 cs)) \<subseteq> insert 32 (set cs)"
      by blast
    from a b Cons show ?thesis
      by (auto simp: decoded_Cons)
  qed
qed

lemma decoded_no_new_tag: "hasTag (decoded s) \<Longrightarrow> hasTag s"
proof (induction s rule: length_induct)
  case (1 s)
  show ?case
  proof (cases s)
    case Nil
    with 1 show ?thesis by simp
  next
    case (Cons c cs)
    show ?thesis
    proof (cases "startsWith (js ''&nbsp;'') (c # cs)")
      case True
      then have "decoded s = 32 # decoded (drop 5 cs)"
        using Cons by (simp add: decoded_Cons)
      with 1(2) have "hasTag (decoded (drop 5 cs))"
        by (simp add: hasTag_Cons)
      moreover have "length (drop 5 cs) < length s"
        using Cons by simp
      ultimately have "hasTag (drop 5 cs)"
        using 1(1) by blast
      then have "hasTag cs"
        by (rule hasTag_suffix)
      then show ?thesis
        using Cons by (simp add: hasTag_Cons)
    next
      case False
      then have "decoded s = c # decoded cs"
        using Cons by (simp add: decoded_Cons)
      with 1(2) have "(c = 60 \<and> decoded cs \<noteq> [] \<and> hd (decoded cs) \<noteq> 62 \<and> 62 \<in> set (decoded cs)) \<or>
          hasTag (decoded cs)"
        by (simp add: hasTag_Cons)
      then show ?thesis
      proof
        assume a: "c = 60 \<and> decoded cs \<noteq> [] \<and> hd (decoded cs) \<noteq> 62 \<and> 62 \<in> set (decoded cs)"
        then have in_cs: "62 \<in> set cs"
          using decoded_set [of cs] by auto
        then obtain d ds where cs: "cs = d # ds"
          by (cases cs) auto
        have "d \<noteq> 62"
        proof
          assume "d = 62"
          then have "decoded cs = 62 # decoded ds"
            unfolding cs using nbsp_head [of d ds] by (auto simp: decoded_Cons)
          with a show False
            by simp
        qed
        with a in_cs cs show ?thesis
          using Cons by (simp add: hasTag_Cons)
      next
        assume "hasTag (decoded cs)"
        then have "hasTag cs"
          using 1(1) Cons by simp
        then show ?thesis
          using Cons by (simp add: hasTag_Cons)
      qed
    qed
  qed
qed

lemma collapseWhite_set: "set (collapseWhite s) \<subseteq> insert 32 (set s)"
proof (induction s rule: length_induct)
  case (1 s)
  show ?case
  proof (cases s)
    case Nil
    then show ?thesis by simp
  next
    case (Cons c cs)
    have a: "set (collapseWhite cs) \<subseteq> insert 32 (set cs)"
      using 1 Cons by simp
    have "length (dropWhile isWhiteSpace cs) < length s"
      using Cons by (simp add: length_dropWhile_le less_Suc_eq_le)
    then have "set (collapseWhite (dropWhile isWhiteSpace cs)) \<subseteq>
        insert 32 (set (dropWhile isWhiteSpace cs))"
      using 1 by blast
    moreover have "set (dropWhile isWhiteSpace cs) \<subseteq> set cs"
      using set_dropWhileD by fastforce
    ultimately have b: "set (collapseWhite (dropWhile isWhiteSpace cs)) \<subseteq> insert 32 (set cs)"
      by blast
    from a b Cons show ?thesis
      by (auto simp: collapseWhite_Cons)
  qed
qed

lemma collapseWhite_no_new_tag: "hasTag (collapseWhite s) \<Longrightarrow> hasTag s"
proof (induction s rule: length_induct)
  case (1 s)
  show ?case
  proof (cases s)
    case Nil
    with 1 show ?thesis by simp
  next
    case (Cons c cs)
    show ?thesis
    proof (cases "isWhiteSpace c")
      case True
      then have "collapseWhite s = 32 # collapseWhite (dropWhile isWhiteSpace cs)"
        using Cons by (simp add: collapseWhite_Cons)
      with 1(2) have "hasTag (collapseWhite (dropWhile isWhiteSpace cs))"
        by (simp add: hasTag_Cons)
      moreover have "length (dropWhile isWhiteSpace cs) < length s"
        using Cons by (simp add: length_dropWhile_le less_Suc_eq_le)
      ultimately have "hasTag (dropWhile isWhiteSpace cs)"
        using 1(1) by blast
      then have "hasTag cs"
        by (rule hasTag_dropWhile)
      then show ?thesis
        using Cons by (simp add: hasTag_Cons)
    next
      case False
      then have "collapseWhite s = c # collapseWhite cs"
        using Cons by (simp add: collapseWhite_Cons)
      with 1(2) have "(c = 60 \<and> collapseWhite cs \<noteq> [] \<and> hd (collapseWhite cs) \<noteq> 62 \<and>
            62 \<in> set (collapseWhite cs)) \<or> hasTag (collapseWhite cs)"
        by (simp add: hasTag_Cons)
      then show ?thesis
      proof
        assume a: "c = 60 \<and> collapseWhite cs \<noteq> [] \<and> hd (collapseWhite cs) \<noteq> 62 \<and>
            62 \<in> set (collapseWhite cs)"
        then have in_cs: "62 \<in> set cs"
          using collapseWhite_set [of cs] by auto
        then obtain d ds where cs: "cs = d # ds"
          by (cases cs) auto
        have "d \<noteq> 62"
        proof
          assume "d = 62"
          then have "collapseWhite cs = 62 # collapseWhite ds"
            unfolding cs by (simp add: collapseWhite_Cons isWhiteSpace_def)
          with a show False
            by simp
        qed
        with a in_cs cs show ?thesis
          using Cons by (simp add: hasTag_Cons)
      next
        assume "hasTag (collapseWhite cs)"
        then have "hasTag cs"
          using 1(1) Cons by simp
        then show ?thesis
          using Cons by (simp add: hasTag_Cons)
      qed
    qed
  qed
qed

lemma trim_no_new_tag: "hasTag (trim s) \<Longrightarrow> hasTag s"
proof -
  assume t: "hasTag (trim s)"
  obtain a b where "s = a @ trim s @ b"
    using trim_part by blast
  with hasTag_part [OF t, of a b] show ?thesis
    by simp
qed

lemma take_no_new_tag: "hasTag (take n s) \<Longrightarrow> hasTag s"
  using hasTag_part [of "take n s" "[]" "drop n s"] by simp

lemma htmlToText_shape:
  "htmlToText html = [] \<or>
   (\<exists>h. htmlToText html = take 20000 (trim (collapseWhite (decoded (stripped h))))) \<or>
   (\<exists>h. htmlToText html = trim (collapseWhite (decoded (stripped h))))"
proof (cases "html = []")
  case True
  then show ?thesis
    by (simp add: htmlToText_def)
next
  case False
  let ?h3 = "replaceAll reBlockCloser (\<lambda>_. [10])
      (replaceAll (reBlock (js ''<style'') (js ''</style>'')) (\<lambda>_. [32])
         (replaceAll (reBlock (js ''<script'') (js ''</script>'')) (\<lambda>_. [32]) html))"
  let ?h6 = "trim (collapseWhite (decoded (stripped ?h3)))"
  have "htmlToText html = (if length ?h6 > 20000 then take 20000 ?h6 else ?h6)"
    using False by (simp add: htmlToText_def Let_def decoded_def stripped_def)
  then have "htmlToText html = take 20000 ?h6 \<or> htmlToText html = ?h6"
    by (simp split: if_splits)
  then show ?thesis
    by blast
qed

lemma htmlToText_no_tag: "\<not> hasTag (htmlToText html)"
proof
  assume t: "hasTag (htmlToText html)"
  have n: "\<not> hasTag (trim (collapseWhite (decoded (stripped h))))" for h
  proof
    assume "hasTag (trim (collapseWhite (decoded (stripped h))))"
    then have "hasTag (collapseWhite (decoded (stripped h)))"
      by (rule trim_no_new_tag)
    then have "hasTag (decoded (stripped h))"
      by (rule collapseWhite_no_new_tag)
    then have "hasTag (stripped h)"
      by (rule decoded_no_new_tag)
    then show False
      using stripped_no_tag by blast
  qed
  from htmlToText_shape [of html]
  consider "htmlToText html = []"
    | h where "htmlToText html = take 20000 (trim (collapseWhite (decoded (stripped h))))"
    | h where "htmlToText html = trim (collapseWhite (decoded (stripped h)))"
    by blast
  then show False
  proof cases
    case 1
    with t show False by simp
  next
    case (2 h)
    with t have "hasTag (take 20000 (trim (collapseWhite (decoded (stripped h)))))"
      by simp
    then have "hasTag (trim (collapseWhite (decoded (stripped h))))"
      by (rule take_no_new_tag)
    with n show False by blast
  next
    case (3 h)
    with t n show False by simp
  qed
qed

text \<open>
  C2 (as amended). For every input, the output of \<open>htmlToText\<close> is single-spaced (its
  only white space is the space character and it has no run of two or more spaces) and
  has no tag: no \<open><\<close> followed by one or more units other than \<open>>\<close> and a \<open>>\<close>. Only such
  tags are removed: a \<open><\<close> or \<open>>\<close> outside a tag stays.
\<close>

theorem htmlToText_single_spaced:
  "singleSpaced (htmlToText html) \<and> \<not> hasTag (htmlToText html)"
  using htmlToText_cases [of html] htmlToText_no_tag [of html]
  by (auto simp: singleSpaced_Nil singleSpaced_take singleSpaced_trim singleSpaced_collapseWhite)

text \<open>
  The theorem on a text with tags, an entity and runs of white space: the output does
  contain a space, and it is single-spaced and without tag.
\<close>

theorem htmlToText_single_spaced_witness:
  "htmlToText (js ''<p>a  &nbsp; b</p>  <i>c</i> < d'') = js ''a b c < d'' \<and>
   singleSpaced (htmlToText (js ''<p>a  &nbsp; b</p>  <i>c</i> < d'')) \<and>
   \<not> hasTag (htmlToText (js ''<p>a  &nbsp; b</p>  <i>c</i> < d''))"
proof -
  have "htmlToText (js ''<p>a  &nbsp; b</p>  <i>c</i> < d'') = js ''a b c < d''"
    by code_simp
  then show ?thesis
    using htmlToText_single_spaced [of "js ''<p>a  &nbsp; b</p>  <i>c</i> < d''"] by simp
qed

text \<open>
  The claim as stated fails: \<open>a < b\<close> contains no tag, and is returned as it is, with
  its \<open><\<close>.
\<close>

theorem htmlToText_angle_counterexample:
  "htmlToText (js ''a < b'') = js ''a < b'' \<and> 60 \<in> set (htmlToText (js ''a < b''))"
  by code_simp

text \<open>
  C3. For every input, the text returned by \<open>htmlToText\<close> has at most 20000 code units, and
  the text returned by \<open>extractMainText\<close> has at most 30000, whatever the document object
  model does.
\<close>

theorem extraction_caps:
  "length (htmlToText html) \<le> 20000 \<and> length (extractMainText domParser html) \<le> 30000"
proof -
  have "length (htmlToText html) \<le> 20000"
    using htmlToText_cases [of html] by auto
  moreover have "length (extractMainText domParser html) \<le> 30000"
    by (auto simp: extractMainText_def Let_def split: option.splits prod.splits)
  ultimately show ?thesis ..
qed

section \<open>Fetching with one retry\<close>




section \<open>The redirect probe\<close>

lemma probeAttempt_Some:
  "probeAttempt api u r = Some x \<longleftrightarrow>
     (\<exists>res loc a. r = Inr res \<and> 300 \<le> status res \<and> status res < 400 \<and>
        locationOf res = Some loc \<and> newURLBase api loc u = Some a \<and> href a = x \<and>
        isLikelyArticleUrl api x)"
  by (cases r) (auto simp: probeAttempt_def split: option.splits)

lemma locationOf_nonempty: "locationOf res = Some loc \<Longrightarrow> loc \<noteq> []"
  by (auto simp: locationOf_def Let_def split: option.splits if_splits)

lemma isLikelyArticleUrl_iff:
  "isLikelyArticleUrl api h \<longleftrightarrow>
     (\<exists>p. newURL api h = Some p \<and> \<not> isDisallowedHost (hostname p) \<and>
        \<not> rxTest assetRx (pathname p) \<and>
        (list_ex (\<lambda>pattern. rxTest pattern (pathname p)) articlePatterns \<or>
         (5 < length (pathname p) \<and> rxTest letter (pathname p))))"
  by (cases "newURL api h") (auto simp: isLikelyArticleUrl_def Let_def)

lemma probe_unfold:
  "probeExternalRedirect api net log u =
     (case probeAttempt api u (net (length log) (pageRequest u (js ''manual'') None)) of
        Some a \<Rightarrow> (a, log @ [pageRequest u (js ''manual'') None])
      | None \<Rightarrow>
         (case probeAttempt api u (net (Suc (length log))
                 (pageRequest u (js ''manual'') (Some googleNewsReferrer))) of
            Some a \<Rightarrow> (a, log @ [pageRequest u (js ''manual'') None,
                                   pageRequest u (js ''manual'') (Some googleNewsReferrer)])
          | None \<Rightarrow> ([], log @ [pageRequest u (js ''manual'') None,
                                   pageRequest u (js ''manual'') (Some googleNewsReferrer)])))"
  by (simp add: probeExternalRedirect_def Let_def split: option.splits)

text \<open>
  C9. Let \<open>r1\<close> and \<open>r2\<close> be what the network gives to the plain probe request and to the
  one with the referrer. If \<open>probeExternalRedirect\<close> returns a non-empty URL, then one of
  the two is a response with a status in [300, 400) and a non-empty \<open>Location\<close> header,
  the result is the absolute form of that header, and it passes \<open>isLikelyArticleUrl\<close>: it
  parses, its host is not disallowed, its path is no asset and matches an article pattern
  or is longer than 5 with a letter. If no response qualifies in this way, and in
  particular if both requests are rejected, the result is empty.
\<close>

theorem probeExternalRedirect_result:
  assumes "net (length log) (pageRequest u (js ''manual'') None) = r1"
    and "net (Suc (length log)) (pageRequest u (js ''manual'') (Some googleNewsReferrer)) = r2"
  shows "(fst (probeExternalRedirect api net log u) \<noteq> [] \<longrightarrow>
      (\<exists>res loc a p. (r1 = Inr res \<or> r2 = Inr res) \<and>
         300 \<le> status res \<and> status res < 400 \<and>
         locationOf res = Some loc \<and> loc \<noteq> [] \<and> newURLBase api loc u = Some a \<and>
         fst (probeExternalRedirect api net log u) = href a \<and>
         isLikelyArticleUrl api (href a) \<and>
         newURL api (href a) = Some p \<and> \<not> isDisallowedHost (hostname p) \<and>
         \<not> rxTest assetRx (pathname p) \<and>
         (list_ex (\<lambda>pattern. rxTest pattern (pathname p)) articlePatterns \<or>
          (5 < length (pathname p) \<and> rxTest letter (pathname p))))) \<and>
     ((\<forall>res loc a. (r1 = Inr res \<or> r2 = Inr res) \<and> 300 \<le> status res \<and> status res < 400 \<and>
          locationOf res = Some loc \<and> newURLBase api loc u = Some a \<longrightarrow>
          \<not> isLikelyArticleUrl api (href a)) \<longrightarrow>
        fst (probeExternalRedirect api net log u) = []) \<and>
     ((\<exists>e1. r1 = Inl e1) \<and> (\<exists>e2. r2 = Inl e2) \<longrightarrow>
        fst (probeExternalRedirect api net log u) = [])"
proof -
  let ?p = "probeExternalRedirect api net log u"
  have u: "?p = (case probeAttempt api u r1 of
        Some a \<Rightarrow> (a, log @ [pageRequest u (js ''manual'') None])
      | None \<Rightarrow>
         (case probeAttempt api u r2 of
            Some a \<Rightarrow> (a, log @ [pageRequest u (js ''manual'') None,
                                   pageRequest u (js ''manual'') (Some googleNewsReferrer)])
          | None \<Rightarrow> ([], log @ [pageRequest u (js ''manual'') None,
                                   pageRequest u (js ''manual'') (Some googleNewsReferrer)])))"
    unfolding assms [symmetric] by (rule probe_unfold)
  have cases: "probeAttempt api u r1 = Some (fst ?p) \<or> probeAttempt api u r2 = Some (fst ?p) \<or>
      (fst ?p = [] \<and> probeAttempt api u r1 = None \<and> probeAttempt api u r2 = None)"
    unfolding u by (simp split: option.splits)
  have a: "\<exists>res loc a p. (r1 = Inr res \<or> r2 = Inr res) \<and>
         300 \<le> status res \<and> status res < 400 \<and>
         locationOf res = Some loc \<and> loc \<noteq> [] \<and> newURLBase api loc u = Some a \<and>
         fst ?p = href a \<and> isLikelyArticleUrl api (href a) \<and>
         newURL api (href a) = Some p \<and> \<not> isDisallowedHost (hostname p) \<and>
         \<not> rxTest assetRx (pathname p) \<and>
         (list_ex (\<lambda>pattern. rxTest pattern (pathname p)) articlePatterns \<or>
          (5 < length (pathname p) \<and> rxTest letter (pathname p)))"
    if ne: "fst ?p \<noteq> []"
  proof -
    from cases ne obtain r where r: "r = r1 \<or> r = r2" and s: "probeAttempt api u r = Some (fst ?p)"
      by blast
    from s obtain res loc a where x: "r = Inr res" "300 \<le> status res" "status res < 400"
        "locationOf res = Some loc" "newURLBase api loc u = Some a" "href a = fst ?p"
        "isLikelyArticleUrl api (fst ?p)"
      unfolding probeAttempt_Some by blast
    from x(7) obtain p where p: "newURL api (fst ?p) = Some p" "\<not> isDisallowedHost (hostname p)"
        "\<not> rxTest assetRx (pathname p)"
        "list_ex (\<lambda>pattern. rxTest pattern (pathname p)) articlePatterns \<or>
          (5 < length (pathname p) \<and> rxTest letter (pathname p))"
      unfolding isLikelyArticleUrl_iff by blast
    have "loc \<noteq> []"
      using x(4) by (rule locationOf_nonempty)
    with r x p show ?thesis
      by (metis (no_types, lifting))
  qed
  have b: "fst ?p = []"
    if no: "\<forall>res loc a. (r1 = Inr res \<or> r2 = Inr res) \<and> 300 \<le> status res \<and> status res < 400 \<and>
          locationOf res = Some loc \<and> newURLBase api loc u = Some a \<longrightarrow>
          \<not> isLikelyArticleUrl api (href a)"
  proof (rule ccontr)
    assume "fst ?p \<noteq> []"
    from a [OF this] no show False
      by blast
  qed
  have c: "fst ?p = []" if "(\<exists>e1. r1 = Inl e1) \<and> (\<exists>e2. r2 = Inl e2)"
  proof (rule ccontr)
    assume "fst ?p \<noteq> []"
    from a [OF this] that show False
      by auto
  qed
  from a b c show ?thesis
    by blast
qed

text \<open>
  The theorem where the first request is rejected and the second is answered by status 302
  with the location of an article of the publisher.
\<close>

theorem probeExternalRedirect_result_witness:
  "fst (probeExternalRedirect exampleUrlApi netRedirectOnRetry []
          (js ''https://news.google.com/read/abc'')) =
     js ''https://publisher.example/2025/08/14/story-title'' \<and>
   (\<exists>res loc a p.
      netRedirectOnRetry (Suc 0) (pageRequest (js ''https://news.google.com/read/abc'')
          (js ''manual'') (Some googleNewsReferrer)) = Inr res \<and>
      300 \<le> status res \<and> status res < 400 \<and> locationOf res = Some loc \<and>
      newURLBase exampleUrlApi loc (js ''https://news.google.com/read/abc'') = Some a \<and>
      href a = js ''https://publisher.example/2025/08/14/story-title'' \<and>
      newURL exampleUrlApi (href a) = Some p \<and> \<not> isDisallowedHost (hostname p))"
proof -
  let ?u = "js ''https://news.google.com/read/abc''"
  let ?t = "js ''https://publisher.example/2025/08/14/story-title''"
  have r1: "netRedirectOnRetry (length []) (pageRequest ?u (js ''manual'') None) =
      Inl (Error (js ''Failed to fetch''))"
    by (simp add: netRedirectOnRetry_def)
  have r2: "netRedirectOnRetry (Suc (length []))
        (pageRequest ?u (js ''manual'') (Some googleNewsReferrer)) =
      netRedirectOnRetry (Suc 0) (pageRequest ?u (js ''manual'') (Some googleNewsReferrer))"
    by simp
  have v: "fst (probeExternalRedirect exampleUrlApi netRedirectOnRetry [] ?u) = ?t"
    by code_simp
  have "?t \<noteq> []"
    by (simp add: js_def)
  with v have ne: "fst (probeExternalRedirect exampleUrlApi netRedirectOnRetry [] ?u) \<noteq> []"
    by simp
  from probeExternalRedirect_result [OF r1 r2, of exampleUrlApi] ne v show ?thesis
    by (metis (no_types, lifting) sum.distinct(1))
qed

section \<open>The scanner never returns a disallowed host\<close>

lemma includesStr_refl: "includesStr p p"
  by (cases p) (simp_all add: startsWith_def)

lemma pass_admits:
  assumes "firstPass api h \<or> secondPass api h \<or> thirdPass api h"
  shows "\<exists>p. newURL api h = Some p \<and> \<not> isGoogleDomain (hostname p) \<and>
           \<not> isUrlBlacklisted (hostname p) (pathname p)"
  using assms
  by (cases "newURL api h")
     (auto simp: firstPass_def secondPass_def thirdPass_def Let_def split: if_splits)

lemma selectExternalUrl_pass:
  assumes "selectExternalUrl api hrefs \<noteq> []"
  shows "selectExternalUrl api hrefs \<in> set hrefs \<and>
     (firstPass api (selectExternalUrl api hrefs) \<or> secondPass api (selectExternalUrl api hrefs) \<or>
      thirdPass api (selectExternalUrl api hrefs))"
proof -
  let ?r = "selectExternalUrl api hrefs"
  have "find (firstPass api) hrefs = Some ?r \<or> find (secondPass api) hrefs = Some ?r \<or>
      find (thirdPass api) hrefs = Some ?r"
    using assms by (auto simp: selectExternalUrl_def split: option.splits)
  then show ?thesis
    by (auto simp: find_Some_iff)
qed

lemma not_blacklisted_host:
  assumes "\<not> isUrlBlacklisted host path" and "b \<in> set blacklistedHosts"
  shows "host \<noteq> b \<and> \<not> endsWith (46 # b) host \<and> \<not> includesStr b host"
proof -
  from assms have "\<not> includesStr b host \<and> \<not> endsWith (46 # b) host"
    by (auto simp: isUrlBlacklisted_def list_ex_iff)
  then show ?thesis
    using includesStr_refl [of b] by auto
qed

text \<open>
  C8 (as amended). Whatever links are collected from the page, a non-empty result of
  \<open>extractExternalUrlFromGoogleNews\<close> is one of them, it parses, and its host contains none
  of the four texts \<open>google.com\<close>, \<open>gstatic.com\<close>, \<open>googleusercontent.com\<close> and
  \<open>cdn.ampproject.org\<close> that the passes skip, and is neither equal to, nor a subdomain of,
  nor even a text containing a host of \<open>blacklistedHosts\<close>. Hosts of Google outside these
  two lists are not covered.
\<close>

theorem scan_never_disallowed:
  "extractExternalUrlFromGoogleNews api collectHrefs html \<noteq> [] \<longrightarrow>
     (\<exists>p. extractExternalUrlFromGoogleNews api collectHrefs html \<in> set (collectHrefs html) \<and>
        newURL api (extractExternalUrlFromGoogleNews api collectHrefs html) = Some p \<and>
        \<not> isGoogleDomain (hostname p) \<and>
        (\<forall>b \<in> set blacklistedHosts.
            hostname p \<noteq> b \<and> \<not> endsWith (46 # b) (hostname p) \<and> \<not> includesStr b (hostname p)))"
proof
  let ?r = "extractExternalUrlFromGoogleNews api collectHrefs html"
  assume ne: "?r \<noteq> []"
  then have r: "?r = selectExternalUrl api (collectHrefs html)"
    by (simp add: extractExternalUrlFromGoogleNews_def split: if_splits)
  with ne have "selectExternalUrl api (collectHrefs html) \<noteq> []"
    by simp
  from selectExternalUrl_pass [OF this] r
  have m: "?r \<in> set (collectHrefs html)"
    and p: "firstPass api ?r \<or> secondPass api ?r \<or> thirdPass api ?r"
    by simp_all
  from pass_admits [OF p] obtain p where p: "newURL api ?r = Some p"
    "\<not> isGoogleDomain (hostname p)" "\<not> isUrlBlacklisted (hostname p) (pathname p)"
    by blast
  from p(3) have "\<forall>b \<in> set blacklistedHosts.
      hostname p \<noteq> b \<and> \<not> endsWith (46 # b) (hostname p) \<and> \<not> includesStr b (hostname p)"
    using not_blacklisted_host by blast
  with m p show "\<exists>p. ?r \<in> set (collectHrefs html) \<and> newURL api ?r = Some p \<and>
        \<not> isGoogleDomain (hostname p) \<and>
        (\<forall>b \<in> set blacklistedHosts.
            hostname p \<noteq> b \<and> \<not> endsWith (46 # b) (hostname p) \<and> \<not> includesStr b (hostname p))"
    by blast
qed

text \<open>
  The theorem on the example list: the social-media link and the link of the intermediary
  are passed over and the publisher link is returned.
\<close>

theorem scan_never_disallowed_witness:
  "js ''https://www.facebook.com/publisher/posts/2025/08/14/story'' \<in> set exampleHrefs \<and>
   extractExternalUrlFromGoogleNews exampleUrlApi (\<lambda>_. exampleHrefs) (js ''<html>'') =
     js ''https://publisher.example/2025/08/14/story-title'' \<and>
   (\<exists>p. newURL exampleUrlApi (js ''https://publisher.example/2025/08/14/story-title'') = Some p \<and>
        \<not> isGoogleDomain (hostname p) \<and> hostname p \<noteq> js ''facebook.com'' \<and>
        \<not> endsWith (46 # js ''facebook.com'') (hostname p))"
proof -
  let ?t = "js ''https://publisher.example/2025/08/14/story-title''"
  have m: "js ''https://www.facebook.com/publisher/posts/2025/08/14/story'' \<in> set exampleHrefs"
    by code_simp
  have v: "extractExternalUrlFromGoogleNews exampleUrlApi (\<lambda>_. exampleHrefs) (js ''<html>'') = ?t"
    by code_simp
  have "?t \<noteq> []"
    by (simp add: js_def)
  with v have ne: "extractExternalUrlFromGoogleNews exampleUrlApi (\<lambda>_. exampleHrefs) (js ''<html>'') \<noteq> []"
    by simp
  have b: "js ''facebook.com'' \<in> set blacklistedHosts"
    by code_simp
  from scan_never_disallowed [of exampleUrlApi "\<lambda>_. exampleHrefs" "js ''<html>''"] ne v b m
  show ?thesis
    by (metis (no_types, lifting))
qed

text \<open>
  The claim as stated fails for a host of Google that holds none of the four texts: the
  first pass returns the link to \<open>www.google.co.uk\<close>, a host that \<open>isDisallowedHost\<close> of the
  same file rejects as one of Google, although the publisher link that follows it on the
  page is admissible.
\<close>

theorem scan_google_host_counterexample:
  "extractExternalUrlFromGoogleNews googleUkUrlApi (\<lambda>_. googleUkHrefs) (js ''<html>'') =
     js ''https://www.google.co.uk/world/some-story'' \<and>
   map_option hostname (newURL googleUkUrlApi (js ''https://www.google.co.uk/world/some-story'')) =
     Some (js ''www.google.co.uk'') \<and>
   isDisallowedHost (js ''www.google.co.uk'') \<and>
   js ''https://publisher.example/2025/08/14/story-title'' \<in> set googleUkHrefs \<and>
   firstPass googleUkUrlApi (js ''https://publisher.example/2025/08/14/story-title'')"
  by code_simp



section \<open>The requests of the engine\<close>

lemma responsesRound_log:
  "fst (snd (responsesRound net log l st sys usr key cap lc f)) =
     log @ [apiRequest responsesUrl key (responsesBody st sys usr cap f)]"
  by (simp add: responsesRound_def Let_def split: sum.splits option.splits json.splits)

lemma formatLoop_log:
  "\<exists>new. fst (snd (formatLoop net log l st sys usr key cap lc fs)) = log @ new \<and>
     (\<forall>r \<in> set new. url r = responsesUrl) \<and>
     (fs \<noteq> [] \<longrightarrow>
        (\<exists>rest. new = apiRequest responsesUrl key (responsesBody st sys usr cap (hd fs)) # rest))"
proof (induction fs arbitrary: log l)
  case Nil
  then show ?case by simp
next
  case (Cons f fs)
  obtain e log' l' where r: "responsesRound net log l st sys usr key cap lc f = (e, log', l')"
    by (cases "responsesRound net log l st sys usr key cap lc f") auto
  have log': "log' = log @ [apiRequest responsesUrl key (responsesBody st sys usr cap f)]"
    using responsesRound_log [of net log l st sys usr key cap lc f] r by simp
  have u: "url (apiRequest responsesUrl key (responsesBody st sys usr cap f)) = responsesUrl"
    by (simp add: apiRequest_def)
  show ?case
  proof (cases "e = NextFormat")
    case False
    then have "formatLoop net log l st sys usr key cap lc (f # fs) = (e, log', l')"
      using r by (cases e) simp_all
    with log' u show ?thesis
      by simp
  next
    case True
    then have eq: "formatLoop net log l st sys usr key cap lc (f # fs) =
        formatLoop net log' l' st sys usr key cap lc fs"
      using r by simp
    from Cons.IH [of log' l'] obtain new where
      n: "fst (snd (formatLoop net log' l' st sys usr key cap lc fs)) = log' @ new"
        "\<forall>r \<in> set new. url r = responsesUrl"
      by blast
    have "fst (snd (formatLoop net log l st sys usr key cap lc (f # fs))) =
        log @ (apiRequest responsesUrl key (responsesBody st sys usr cap f) # new)"
      using eq n(1) log' by simp
    with n(2) u show ?thesis
      by (metis list.sel(1) list.distinct(1) set_ConsD)
  qed
qed

lemma capLoop_log:
  "\<exists>new. snd (capLoop net log l st sys usr key caps) = log @ new \<and>
     (\<forall>r \<in> set new. url r = responsesUrl) \<and>
     (caps \<noteq> [] \<longrightarrow>
        (\<exists>rest. new = apiRequest responsesUrl key (responsesBody st sys usr (hd caps) True) # rest))"
proof (induction caps arbitrary: log l)
  case Nil
  then show ?case by simp
next
  case (Cons cap caps)
  obtain e log' l' where
    r: "formatLoop net log l st sys usr key cap (caps = []) [True, False] = (e, log', l')"
    by (cases "formatLoop net log l st sys usr key cap (caps = []) [True, False]") auto
  from formatLoop_log [of net log l st sys usr key cap "caps = []" "[True, False]"] r
  obtain new rest where n: "log' = log @ new" "\<forall>r \<in> set new. url r = responsesUrl"
      "new = apiRequest responsesUrl key (responsesBody st sys usr cap True) # rest"
    by auto
  show ?case
  proof (cases "(\<exists>s. e = Returned s) \<or> (\<exists>x. e = Thrown x)")
    case True
    then have "snd (capLoop net log l st sys usr key (cap # caps)) = log'"
      using r by auto
    with n show ?thesis
      by auto
  next
    case False
    then have eq: "capLoop net log l st sys usr key (cap # caps) =
        capLoop net log' l' st sys usr key caps"
      using r by (cases e) auto
    from Cons.IH [of log' l'] obtain new2 where
      m: "snd (capLoop net log' l' st sys usr key caps) = log' @ new2"
        "\<forall>r \<in> set new2. url r = responsesUrl"
      by blast
    have "snd (capLoop net log l st sys usr key (cap # caps)) = log @ (new @ new2)"
      using eq m(1) n(1) by simp
    moreover have "\<forall>r \<in> set (new @ new2). url r = responsesUrl"
      using n(2) m(2) by auto
    moreover have "new @ new2 = apiRequest responsesUrl key (responsesBody st sys usr cap True) #
        (rest @ new2)"
      using n(3) by simp
    ultimately show ?thesis
      by (metis list.sel(1))
  qed
qed

lemma contentType_valid:
  "validateHeaderByteString (js ''Content-Type'') (js ''application/json'') = None"
  by code_simp

lemma responses_log:
  "\<exists>new. snd (summarizeWithOpenAIResponses net log sys usr st) = log @ new \<and>
     (\<forall>r \<in> set new. url r = responsesUrl) \<and>
     (validateHeaderByteString (js ''Authorization'') (js ''Bearer '' @ trim (apiKey st)) = None
        \<longrightarrow> (\<exists>rest. new = apiRequest responsesUrl (trim (apiKey st))
                               (responsesBody st sys usr None True) # rest)) \<and>
     (validateHeaderByteString (js ''Authorization'') (js ''Bearer '' @ trim (apiKey st)) \<noteq> None
        \<longrightarrow> new = [])"
proof (cases "validateHeaderByteString (js ''Authorization'') (js ''Bearer '' @ trim (apiKey st))")
  case (Some e)
  then have "snd (summarizeWithOpenAIResponses net log sys usr st) = log @ []"
    by (simp add: summarizeWithOpenAIResponses_def Let_def)
  with Some show ?thesis
    by (metis empty_iff list.set(1) option.distinct(1))
next
  case None
  then have "summarizeWithOpenAIResponses net log sys usr st =
      capLoop net log None st sys usr (trim (apiKey st)) [None, Some 512]"
    by (simp add: summarizeWithOpenAIResponses_def Let_def contentType_valid)
  with None capLoop_log [of net log None st sys usr "trim (apiKey st)" "[None, Some 512]"]
  show ?thesis
    by auto
qed

lemma urls_differ: "chatUrl \<noteq> responsesUrl"
  by code_simp

lemma summarize_no_key:
  "apiKey st = [] \<Longrightarrow> snd (summarizeWithOpenAI net log input st) = log"
  by (simp add: summarizeWithOpenAI_def)

lemma summarize_gpt5:
  assumes "apiKey st \<noteq> []" and "startsWith (js ''gpt-5'') (toLowerCase (model st))"
  shows "summarizeWithOpenAI net log input st =
     summarizeWithOpenAIResponses net log (fst (buildPrompt input st)) (snd (buildPrompt input st)) st"
  using assms by (simp add: summarizeWithOpenAI_def Let_def split: prod.splits)

lemma summarize_chat_invalid:
  assumes "apiKey st \<noteq> []" and "\<not> startsWith (js ''gpt-5'') (toLowerCase (model st))"
    and "validateHeaderByteString (js ''Authorization'') (js ''Bearer '' @ trim (apiKey st)) = Some e"
  shows "summarizeWithOpenAI net log input st = (Inl e, log)"
  using assms by (simp add: summarizeWithOpenAI_def Let_def split: prod.splits)

text \<open>The chat request of a call, and what each kind of answer leads to.\<close>

lemma summarize_chat_rejected:
  assumes "apiKey st \<noteq> []" and "\<not> startsWith (js ''gpt-5'') (toLowerCase (model st))"
    and "validateHeaderByteString (js ''Authorization'') (js ''Bearer '' @ trim (apiKey st)) = None"
    and "buildPrompt input st = (system, user)"
    and "net (length log) (apiRequest chatUrl (trim (apiKey st)) (chatBody st system user)) = Inl e"
  shows "summarizeWithOpenAI net log input st =
     (Inl e, log @ [apiRequest chatUrl (trim (apiKey st)) (chatBody st system user)])"
  using assms by (simp add: summarizeWithOpenAI_def Let_def contentType_valid)

lemma summarize_chat_ok:
  assumes "apiKey st \<noteq> []" and "\<not> startsWith (js ''gpt-5'') (toLowerCase (model st))"
    and "validateHeaderByteString (js ''Authorization'') (js ''Bearer '' @ trim (apiKey st)) = None"
    and "buildPrompt input st = (system, user)"
    and "net (length log) (apiRequest chatUrl (trim (apiKey st)) (chatBody st system user)) =
           Inr chatRes"
    and "ok chatRes"
  shows "snd (summarizeWithOpenAI net log input st) =
     log @ [apiRequest chatUrl (trim (apiKey st)) (chatBody st system user)]"
  using assms
  by (simp add: summarizeWithOpenAI_def Let_def contentType_valid
      split: sum.splits option.splits json.splits)

lemma summarize_chat_not_ok:
  assumes "apiKey st \<noteq> []" and "\<not> startsWith (js ''gpt-5'') (toLowerCase (model st))"
    and "validateHeaderByteString (js ''Authorization'') (js ''Bearer '' @ trim (apiKey st)) = None"
    and "buildPrompt input st = (system, user)"
    and "net (length log) (apiRequest chatUrl (trim (apiKey st)) (chatBody st system user)) =
           Inr chatRes"
    and "\<not> ok chatRes"
  shows "summarizeWithOpenAI net log input st =
     (if status chatRes = 400 \<and> rxTest maxTokensRx (safeText chatRes) \<and>
         rxTest maxCompletionTokensRx (safeText chatRes)
      then summarizeWithOpenAIResponses net
             (log @ [apiRequest chatUrl (trim (apiKey st)) (chatBody st system user)]) system user st
      else (Inl (Error (js ''OpenAI error ('' @ showNat (status chatRes) @ js ''): '' @
                        safeText chatRes)),
            log @ [apiRequest chatUrl (trim (apiKey st)) (chatBody st system user)]))"
  using assms by (simp add: summarizeWithOpenAI_def Let_def contentType_valid)

lemma summarize_chat_log:
  assumes "apiKey st \<noteq> []" and "\<not> startsWith (js ''gpt-5'') (toLowerCase (model st))"
    and "validateHeaderByteString (js ''Authorization'') (js ''Bearer '' @ trim (apiKey st)) = None"
  shows "\<exists>rest. snd (summarizeWithOpenAI net log input st) =
     log @ apiRequest chatUrl (trim (apiKey st))
             (chatBody st (fst (buildPrompt input st)) (snd (buildPrompt input st))) # rest"
proof -
  let ?sys = "fst (buildPrompt input st)"
  let ?usr = "snd (buildPrompt input st)"
  let ?req = "apiRequest chatUrl (trim (apiKey st)) (chatBody st ?sys ?usr)"
  have bp: "buildPrompt input st = (?sys, ?usr)"
    by simp
  obtain new where new: "snd (summarizeWithOpenAIResponses net (log @ [?req]) ?sys ?usr st) =
      (log @ [?req]) @ new"
    using responses_log by blast
  have "snd (summarizeWithOpenAI net log input st) = log @ [?req] \<or>
      snd (summarizeWithOpenAI net log input st) = (log @ [?req]) @ new"
  proof (cases "net (length log) ?req")
    case (Inl e)
    show ?thesis
      using summarize_chat_rejected [where net = net and log = log, OF assms bp Inl] by simp
  next
    case (Inr chatRes)
    show ?thesis
    proof (cases "ok chatRes")
      case True
      show ?thesis
        using summarize_chat_ok [where net = net and log = log, OF assms bp Inr True] by simp
    next
      case False
      show ?thesis
        using summarize_chat_not_ok [where net = net and log = log, OF assms bp Inr False] new by simp
    qed
  qed
  then show ?thesis
    by auto
qed

text \<open>
  C5. The requests that \<open>summarizeWithOpenAI\<close> adds to the log: when the lower-cased model
  name starts with \<open>gpt-5\<close>, every one of them goes to the Responses endpoint, so none
  has the chat shape; for every other model name the first one, if there is any, is the
  chat request. There is a first request as soon as the key is set and passes the header
  check: the structured request without cap and with the format hint for the newer
  family, the chat request otherwise.
\<close>

theorem model_family_dispatch:
  "\<exists>new. snd (summarizeWithOpenAI net log input st) = log @ new \<and>
     (startsWith (js ''gpt-5'') (toLowerCase (model st)) \<longrightarrow>
        (\<forall>req \<in> set new. url req = responsesUrl)) \<and>
     (\<not> startsWith (js ''gpt-5'') (toLowerCase (model st)) \<longrightarrow>
        new = [] \<or> url (hd new) = chatUrl) \<and>
     (apiKey st \<noteq> [] \<and>
      validateHeaderByteString (js ''Authorization'') (js ''Bearer '' @ trim (apiKey st)) = None \<longrightarrow>
        (\<exists>rest. new =
           (if startsWith (js ''gpt-5'') (toLowerCase (model st))
            then apiRequest responsesUrl (trim (apiKey st))
                   (responsesBody st (fst (buildPrompt input st)) (snd (buildPrompt input st)) None True)
            else apiRequest chatUrl (trim (apiKey st))
                   (chatBody st (fst (buildPrompt input st)) (snd (buildPrompt input st)))) # rest))"
proof (cases "apiKey st = []")
  case True
  then have s: "snd (summarizeWithOpenAI net log input st) = log @ []"
    by (simp add: summarize_no_key)
  show ?thesis
    by (rule exI [where x = "[]"]) (use s True in simp)
next
  case key: False
  let ?v = "validateHeaderByteString (js ''Authorization'') (js ''Bearer '' @ trim (apiKey st))"
  let ?sys = "fst (buildPrompt input st)"
  let ?usr = "snd (buildPrompt input st)"
  show ?thesis
  proof (cases "startsWith (js ''gpt-5'') (toLowerCase (model st))")
    case True
    from responses_log [of net log ?sys ?usr st]
    obtain new where n1: "snd (summarizeWithOpenAIResponses net log ?sys ?usr st) = log @ new"
      and n2: "\<forall>r \<in> set new. url r = responsesUrl"
      and n3: "?v = None \<longrightarrow> (\<exists>rest. new = apiRequest responsesUrl (trim (apiKey st))
          (responsesBody st ?sys ?usr None True) # rest)"
      by auto
    have s: "snd (summarizeWithOpenAI net log input st) = log @ new"
      using summarize_gpt5 [OF key True] n1 by simp
    show ?thesis
      by (rule exI [where x = new]) (use s n2 n3 True in simp)
  next
    case False
    show ?thesis
    proof (cases ?v)
      case (Some e)
      have s: "snd (summarizeWithOpenAI net log input st) = log @ []"
        using summarize_chat_invalid [OF key False Some] by simp
      show ?thesis
        by (rule exI [where x = "[]"]) (use s False Some in simp)
    next
      case None
      from summarize_chat_log [OF key False None, of net log input]
      obtain rest where s: "snd (summarizeWithOpenAI net log input st) =
          log @ apiRequest chatUrl (trim (apiKey st)) (chatBody st ?sys ?usr) # rest"
        by blast
      have u: "url (apiRequest chatUrl (trim (apiKey st)) (chatBody st ?sys ?usr)) = chatUrl"
        by (simp add: apiRequest_def)
      show ?thesis
        by (rule exI [where x = "apiRequest chatUrl (trim (apiKey st)) (chatBody st ?sys ?usr) # rest"])
          (use s u False in simp)
    qed
  qed
qed

text \<open>
  The theorem on a model named \<open>GPT-5-nano\<close>, whose only request is the structured one,
  and on \<open>o1-mini\<close>, whose first request is the chat request.
\<close>

theorem model_family_dispatch_witness:
  "startsWith (js ''gpt-5'') (toLowerCase (model stGpt5)) \<and>
   snd (summarizeWithOpenAI netScenarioD [] (js ''Stocks rose.'') stGpt5) =
     [apiRequest responsesUrl (js ''sk-test'')
        (responsesBody stGpt5 (fst (buildPrompt (js ''Stocks rose.'') stGpt5))
           (snd (buildPrompt (js ''Stocks rose.'') stGpt5)) None True)] \<and>
   \<not> startsWith (js ''gpt-5'') (toLowerCase (model stChat)) \<and>
   (\<exists>rest. snd (summarizeWithOpenAI netScenarioD [] (js ''Stocks rose.'') stChat) =
      apiRequest chatUrl (js ''sk-test'')
        (chatBody stChat (fst (buildPrompt (js ''Stocks rose.'') stChat))
           (snd (buildPrompt (js ''Stocks rose.'') stChat))) # rest)"
proof -
  let ?in = "js ''Stocks rose.''"
  have g: "startsWith (js ''gpt-5'') (toLowerCase (model stGpt5))"
    by code_simp
  have l: "snd (summarizeWithOpenAI netScenarioD [] ?in stGpt5) =
     [apiRequest responsesUrl (js ''sk-test'')
        (responsesBody stGpt5 (fst (buildPrompt ?in stGpt5)) (snd (buildPrompt ?in stGpt5)) None True)]"
    by code_simp
  have k: "trim (apiKey stChat) = js ''sk-test''"
    by code_simp
  have h1: "apiKey stChat \<noteq> []"
    by code_simp
  have h2: "\<not> startsWith (js ''gpt-5'') (toLowerCase (model stChat))"
    by code_simp
  have h3: "validateHeaderByteString (js ''Authorization'') (js ''Bearer '' @ trim (apiKey stChat)) = None"
    by code_simp
  from model_family_dispatch [of netScenarioD "[]" ?in stChat] h1 h2 h3
  have "\<exists>rest. snd (summarizeWithOpenAI netScenarioD [] ?in stChat) =
      apiRequest chatUrl (trim (apiKey stChat))
        (chatBody stChat (fst (buildPrompt ?in stChat)) (snd (buildPrompt ?in stChat))) # rest"
    by auto
  then have "\<exists>rest. snd (summarizeWithOpenAI netScenarioD [] ?in stChat) =
      apiRequest chatUrl (js ''sk-test'')
        (chatBody stChat (fst (buildPrompt ?in stChat)) (snd (buildPrompt ?in stChat))) # rest"
    by (simp only: k)
  with g l h2 show ?thesis
    by blast
qed


text \<open>
  C6. Let the chat request be answered by a response \<open>chatRes\<close> that is not a success. If
  its status is 400 and its body matches both \<open>/max_tokens/i\<close> and
  \<open>/max_?completion_?tokens/i\<close>, the engine does not fail there: its result is that of one
  run of \<open>summarizeWithOpenAIResponses\<close> on the same prompt and settings, and after the
  chat request the log holds structured requests only, at least one. In every other case
  the engine raises \<open>OpenAI error (status): body\<close> and the chat request is the only
  request issued.
\<close>

theorem chat_error_fallback:
  assumes "apiKey st \<noteq> []" and "\<not> startsWith (js ''gpt-5'') (toLowerCase (model st))"
    and "validateHeaderByteString (js ''Authorization'') (js ''Bearer '' @ trim (apiKey st)) = None"
    and "buildPrompt input st = (system, user)"
    and "net (length log) (apiRequest chatUrl (trim (apiKey st)) (chatBody st system user)) =
           Inr chatRes"
    and "\<not> ok chatRes"
  shows "(status chatRes = 400 \<and> rxTest maxTokensRx (safeText chatRes) \<and>
          rxTest maxCompletionTokensRx (safeText chatRes) \<longrightarrow>
            summarizeWithOpenAI net log input st =
              summarizeWithOpenAIResponses net
                (log @ [apiRequest chatUrl (trim (apiKey st)) (chatBody st system user)])
                system user st \<and>
            (\<exists>rest. snd (summarizeWithOpenAI net log input st) =
               log @ [apiRequest chatUrl (trim (apiKey st)) (chatBody st system user),
                      apiRequest responsesUrl (trim (apiKey st))
                        (responsesBody st system user None True)] @ rest \<and>
               (\<forall>r \<in> set rest. url r = responsesUrl))) \<and>
     (\<not> (status chatRes = 400 \<and> rxTest maxTokensRx (safeText chatRes) \<and>
          rxTest maxCompletionTokensRx (safeText chatRes)) \<longrightarrow>
            summarizeWithOpenAI net log input st =
              (Inl (Error (js ''OpenAI error ('' @ showNat (status chatRes) @ js ''): '' @
                           safeText chatRes)),
               log @ [apiRequest chatUrl (trim (apiKey st)) (chatBody st system user)]))"
proof -
  let ?req = "apiRequest chatUrl (trim (apiKey st)) (chatBody st system user)"
  let ?cond = "status chatRes = 400 \<and> rxTest maxTokensRx (safeText chatRes) \<and>
          rxTest maxCompletionTokensRx (safeText chatRes)"
  note s = summarize_chat_not_ok [where net = net and log = log, OF assms]
  have a: "summarizeWithOpenAI net log input st =
      summarizeWithOpenAIResponses net (log @ [?req]) system user st" if ?cond
    using s that by simp
  have b: "\<exists>rest. snd (summarizeWithOpenAI net log input st) =
               log @ [?req, apiRequest responsesUrl (trim (apiKey st))
                        (responsesBody st system user None True)] @ rest \<and>
               (\<forall>r \<in> set rest. url r = responsesUrl)" if c: ?cond
  proof -
    from responses_log [of net "log @ [?req]" system user st] assms(3)
    obtain new rest where n1: "snd (summarizeWithOpenAIResponses net (log @ [?req]) system user st) =
        (log @ [?req]) @ new"
      and n2: "\<forall>r \<in> set new. url r = responsesUrl"
      and n3: "new = apiRequest responsesUrl (trim (apiKey st))
          (responsesBody st system user None True) # rest"
      by auto
    have "snd (summarizeWithOpenAI net log input st) =
        log @ [?req, apiRequest responsesUrl (trim (apiKey st))
                        (responsesBody st system user None True)] @ rest"
      using a [OF c] n1 n3 by simp
    moreover have "\<forall>r \<in> set rest. url r = responsesUrl"
      using n2 n3 by simp
    ultimately show ?thesis
      by blast
  qed
  have c: "summarizeWithOpenAI net log input st =
      (Inl (Error (js ''OpenAI error ('' @ showNat (status chatRes) @ js ''): '' @
                   safeText chatRes)), log @ [?req])" if "\<not> ?cond"
    using s that by auto
  from a b c show ?thesis
    by blast
qed

text \<open>
  The theorem on the network that answers the chat shape with status 400 and a body naming
  \<open>max_tokens\<close> and \<open>max_completion_tokens\<close>: the engine switches shape and returns the
  sanitized text of the structured answer.
\<close>

theorem chat_error_fallback_witness:
  "(\<exists>res. netScenarioD 0 (apiRequest chatUrl (js ''sk-test'')
              (chatBody stChat (fst (buildPrompt (js ''Stocks rose.'') stChat))
                 (snd (buildPrompt (js ''Stocks rose.'') stChat)))) = Inr res \<and>
          status res = 400) \<and>
   summarizeWithOpenAI netScenarioD [] (js ''Stocks rose.'') stChat =
     summarizeWithOpenAIResponses netScenarioD
       [apiRequest chatUrl (js ''sk-test'')
          (chatBody stChat (fst (buildPrompt (js ''Stocks rose.'') stChat))
             (snd (buildPrompt (js ''Stocks rose.'') stChat)))]
       (fst (buildPrompt (js ''Stocks rose.'') stChat))
       (snd (buildPrompt (js ''Stocks rose.'') stChat)) stChat \<and>
   fst (summarizeWithOpenAI netScenarioD [] (js ''Stocks rose.'') stChat) =
     Inr (js ''The markets rallied today.'')"
proof -
  let ?in = "js ''Stocks rose.''"
  let ?sys = "fst (buildPrompt ?in stChat)"
  let ?usr = "snd (buildPrompt ?in stChat)"
  let ?res = "\<lparr>status = 400, headersGet = (\<lambda>_. None),
                bodyText = Inr (js ''Unsupported parameter: max_tokens. Use max_completion_tokens.''),
                bodyJson = Inl (Error [])\<rparr>"
  have k: "trim (apiKey stChat) = js ''sk-test''"
    by code_simp
  have h1: "apiKey stChat \<noteq> []"
    by code_simp
  have h2: "\<not> startsWith (js ''gpt-5'') (toLowerCase (model stChat))"
    by code_simp
  have h3: "validateHeaderByteString (js ''Authorization'') (js ''Bearer '' @ trim (apiKey stChat)) = None"
    by code_simp
  have h4: "buildPrompt ?in stChat = (?sys, ?usr)"
    by simp
  have h5: "netScenarioD (length [])
      (apiRequest chatUrl (trim (apiKey stChat)) (chatBody stChat ?sys ?usr)) = Inr ?res"
    by (simp add: netScenarioD_def apiRequest_def)
  have h6: "\<not> ok ?res"
    by (simp add: ok_def)
  have c: "status ?res = 400 \<and> rxTest maxTokensRx (safeText ?res) \<and>
      rxTest maxCompletionTokensRx (safeText ?res)"
    by code_simp
  have v: "fst (summarizeWithOpenAI netScenarioD [] ?in stChat) = Inr (js ''The markets rallied today.'')"
    by code_simp
  have s: "\<exists>res. netScenarioD 0 (apiRequest chatUrl (js ''sk-test'')
              (chatBody stChat ?sys ?usr)) = Inr res \<and> status res = 400"
    by (simp add: netScenarioD_def apiRequest_def)
  from chat_error_fallback [where net = netScenarioD and log = "[]", OF h1 h2 h3 h4 h5 h6] c
  have "summarizeWithOpenAI netScenarioD [] ?in stChat =
      summarizeWithOpenAIResponses netScenarioD
        ([] @ [apiRequest chatUrl (trim (apiKey stChat)) (chatBody stChat ?sys ?usr)]) ?sys ?usr stChat"
    by blast
  then have "summarizeWithOpenAI netScenarioD [] ?in stChat =
      summarizeWithOpenAIResponses netScenarioD
        [apiRequest chatUrl (js ''sk-test'') (chatBody stChat ?sys ?usr)] ?sys ?usr stChat"
    by (simp only: k append_Nil)
  with s v show ?thesis
    by blast
qed


section \<open>Credentials\<close>

lemma trim_Nil: "trim [] = []"
  by (simp add: trim_def)

lemma set_trim: "set (trim s) \<subseteq> set s"
proof -
  obtain a b where "s = a @ trim s @ b"
    using trim_part by blast
  then have "set s = set a \<union> set (trim s) \<union> set b"
    by (metis set_append Un_assoc)
  then show ?thesis
    by blast
qed

lemma startsWith_part: "startsWith p s \<Longrightarrow> set p \<subseteq> set s \<and> length p \<le> length s"
proof -
  assume "startsWith p s"
  then have p: "take (length p) s = p"
    by (simp add: startsWith_def)
  have "set (take (length p) s) \<subseteq> set s"
    by (rule set_take_subset)
  moreover have "length (take (length p) s) \<le> length s"
    by simp
  ultimately show ?thesis
    using p by simp
qed

lemma includesStr_part: "includesStr p s \<Longrightarrow> set p \<subseteq> set s \<and> length p \<le> length s"
proof (induction s)
  case Nil
  then show ?case by simp
next
  case (Cons c cs)
  then show ?case
    using startsWith_part [of p "c # cs"] by auto
qed

lemma bearer_literal: "js ''Bearer '' = [66, 101, 97, 114, 101, 114, 32]"
  by (simp add: js_def)

lemma stripBearer_key:
  assumes "trimmed key"
  shows "stripBearer (js ''Bearer '' @ key) = key"
proof -
  have w: "takeWhile isWhiteSpace (32 # key) = [32]"
  proof (cases key)
    case Nil
    then show ?thesis by (simp add: isWhiteSpace_def)
  next
    case (Cons c cs)
    with assms have "\<not> isWhiteSpace c"
      by (simp add: trimmed_def)
    with Cons show ?thesis
      by (simp add: isWhiteSpace_def)
  qed
  have s: "startsWithCI (js ''Bearer'') (js ''Bearer '' @ key)"
    by (simp add: startsWithCI_def js_def)
  have d: "drop 6 (js ''Bearer '' @ key) = 32 # key"
    by (simp add: bearer_literal)
  have "stripBearer (js ''Bearer '' @ key) = drop 7 (js ''Bearer '' @ key)"
    unfolding stripBearer_def d w using s by simp
  then show ?thesis
    by (simp add: bearer_literal)
qed

lemma authorization_lower: "toLowerCase (js ''Authorization'') = js ''authorization''"
  by code_simp

lemma validate_bearer:
  assumes "trimmed key"
  shows "validateHeaderByteString (js ''Authorization'') (js ''Bearer '' @ key) =
     (if \<exists>c \<in> set key. c > 127 then Some (Error (nonAsciiMessage (js ''Authorization'')))
      else if length key > 200 then Some (Error longKeyMessage)
      else None)"
proof -
  have "list_ex (\<lambda>code. code > 127) (js ''Bearer '' @ key) \<longleftrightarrow> (\<exists>c \<in> set key. c > 127)"
    by (auto simp: list_ex_iff bearer_literal)
  then show ?thesis
    by (simp add: validateHeaderByteString_def stripBearer_key [OF assms] authorization_lower)
qed

lemma nonAsciiMessage_ascii: "list_all (\<lambda>c. c \<le> 127) (nonAsciiMessage (js ''Authorization''))"
  by code_simp

lemma longKeyMessage_short: "length longKeyMessage \<le> 200"
  by code_simp

text \<open>The same facts for the copy in \<open>src/contentScript.js\<close>.\<close>

lemma validate_bearer_contentScript:
  assumes "trimmed key"
  shows "validateHeaderByteString_contentScript (js ''Authorization'') (js ''Bearer '' @ key) =
     (if \<exists>c \<in> set key. c > 127
      then Some (Error (nonAsciiMessage_contentScript (js ''Authorization'')))
      else if length key > 200 then Some (Error longKeyMessage)
      else None)"
proof -
  have "list_ex (\<lambda>code. code > 127) (js ''Bearer '' @ key) \<longleftrightarrow> (\<exists>c \<in> set key. c > 127)"
    by (auto simp: list_ex_iff bearer_literal)
  then show ?thesis
    by (simp add: validateHeaderByteString_contentScript_def stripBearer_key [OF assms]
        authorization_lower)
qed

lemma nonAsciiMessage_contentScript_units:
  "list_all (\<lambda>c. c \<le> 127 \<or> c = 8220 \<or> c = 8221 \<or> c = 8230)
     (nonAsciiMessage_contentScript (js ''Authorization''))"
  by code_simp

lemma nonAsciiMessage_contentScript_length:
  "length (nonAsciiMessage_contentScript (js ''Authorization'')) = 162"
  by code_simp

lemma summarize_gpt5_contentScript:
  assumes "apiKey st \<noteq> []" and "startsWith (js ''gpt-5'') (toLowerCase (model st))"
  shows "summarizeWithOpenAI_contentScript net log input st =
     summarizeWithOpenAIResponses_contentScript net log (fst (buildPrompt input st))
       (snd (buildPrompt input st)) st"
  using assms by (simp add: summarizeWithOpenAI_contentScript_def Let_def split: prod.splits)

lemma summarize_chat_invalid_contentScript:
  assumes "apiKey st \<noteq> []" and "\<not> startsWith (js ''gpt-5'') (toLowerCase (model st))"
    and "validateHeaderByteString_contentScript (js ''Authorization'')
           (js ''Bearer '' @ trim (apiKey st)) = Some e"
  shows "summarizeWithOpenAI_contentScript net log input st = (Inl e, log)"
  using assms by (simp add: summarizeWithOpenAI_contentScript_def Let_def split: prod.splits)

text \<open>
  C4 (as amended). If the key, once trimmed, holds a code unit above 127 or is longer than
  200, \<open>summarizeWithOpenAI\<close> raises an error and issues no request (the log is unchanged),
  in \<open>src/background.js\<close> and in the copy of \<open>src/contentScript.js\<close> alike. The message
  is a fixed text that does not depend on the key: the text of \<open>validateHeaderByteString\<close>
  for a character outside ASCII in the header \<open>Authorization\<close> when the trimmed key holds a
  unit above 127, and its text for a long key otherwise. The key does not occur in the
  message of \<open>src/background.js\<close>. The message of \<open>src/contentScript.js\<close> itself holds
  U+201C, U+201D and U+2026, and the key does not occur in it when the key holds a unit
  above 127 other than these three or is longer than 162, the length of that message.
\<close>

theorem credential_guard:
  assumes "(\<exists>c \<in> set (trim (apiKey st)). c > 127) \<or> length (trim (apiKey st)) > 200"
  shows "\<exists>msg msg'.
     summarizeWithOpenAI net log input st = (Inl (Error msg), log) \<and>
     summarizeWithOpenAI_contentScript net log input st = (Inl (Error msg'), log) \<and>
     msg = (if \<exists>c \<in> set (trim (apiKey st)). c > 127
            then nonAsciiMessage (js ''Authorization'') else longKeyMessage) \<and>
     msg' = (if \<exists>c \<in> set (trim (apiKey st)). c > 127
             then nonAsciiMessage_contentScript (js ''Authorization'') else longKeyMessage) \<and>
     \<not> includesStr (apiKey st) msg \<and>
     ((\<exists>c \<in> set (apiKey st). c > 127 \<and> c \<noteq> 8220 \<and> c \<noteq> 8221 \<and> c \<noteq> 8230) \<or>
      length (apiKey st) > 162
        \<longrightarrow> \<not> includesStr (apiKey st) msg')"
proof -
  let ?key = "trim (apiKey st)"
  let ?na = "\<exists>c \<in> set ?key. c > 127"
  let ?m = "if ?na then nonAsciiMessage (js ''Authorization'') else longKeyMessage"
  let ?m' = "if ?na then nonAsciiMessage_contentScript (js ''Authorization'') else longKeyMessage"
  let ?v = "validateHeaderByteString (js ''Authorization'') (js ''Bearer '' @ ?key)"
  let ?v' = "validateHeaderByteString_contentScript (js ''Authorization'') (js ''Bearer '' @ ?key)"
  let ?odd = "(\<exists>c \<in> set (apiKey st). c > 127 \<and> c \<noteq> 8220 \<and> c \<noteq> 8221 \<and> c \<noteq> 8230) \<or>
      length (apiKey st) > 162"
  have key: "apiKey st \<noteq> []"
    using assms trim_Nil by auto
  have long: "length (apiKey st) > 200" if "\<not> ?na"
  proof -
    from that assms have "length ?key > 200"
      by blast
    then show ?thesis
      using length_trim [of "apiKey st"] by simp
  qed
  have vb: "?v = (if ?na then Some (Error (nonAsciiMessage (js ''Authorization'')))
      else if length ?key > 200 then Some (Error longKeyMessage) else None)"
    using validate_bearer [OF trimmed_trim] by simp
  have vb': "?v' = (if ?na then Some (Error (nonAsciiMessage_contentScript (js ''Authorization'')))
      else if length ?key > 200 then Some (Error longKeyMessage) else None)"
    using validate_bearer_contentScript [OF trimmed_trim] by simp
  have v: "?v = Some (Error ?m)"
  proof (cases ?na)
    case True
    then show ?thesis
      using vb by simp
  next
    case False
    with assms have "length ?key > 200"
      by blast
    with False show ?thesis
      using vb by simp
  qed
  have v': "?v' = Some (Error ?m')"
  proof (cases ?na)
    case True
    then show ?thesis
      using vb' by simp
  next
    case False
    with assms have "length ?key > 200"
      by blast
    with False show ?thesis
      using vb' by simp
  qed
  have raised: "summarizeWithOpenAI net log input st = (Inl e, log)" if "?v = Some e" for e
  proof (cases "startsWith (js ''gpt-5'') (toLowerCase (model st))")
    case True
    have "summarizeWithOpenAIResponses net log (fst (buildPrompt input st))
        (snd (buildPrompt input st)) st = (Inl e, log)"
      using that by (simp add: summarizeWithOpenAIResponses_def Let_def)
    then show ?thesis
      using summarize_gpt5 [OF key True] by simp
  next
    case False
    show ?thesis
      using summarize_chat_invalid [OF key False that] .
  qed
  have raised': "summarizeWithOpenAI_contentScript net log input st = (Inl e, log)"
    if "?v' = Some e" for e
  proof (cases "startsWith (js ''gpt-5'') (toLowerCase (model st))")
    case True
    have "summarizeWithOpenAIResponses_contentScript net log (fst (buildPrompt input st))
        (snd (buildPrompt input st)) st = (Inl e, log)"
      using that by (simp add: summarizeWithOpenAIResponses_contentScript_def Let_def)
    then show ?thesis
      using summarize_gpt5_contentScript [OF key True] by simp
  next
    case False
    show ?thesis
      using summarize_chat_invalid_contentScript [OF key False that] .
  qed
  have r: "summarizeWithOpenAI net log input st = (Inl (Error ?m), log)"
    using v by (rule raised)
  have r': "summarizeWithOpenAI_contentScript net log input st = (Inl (Error ?m'), log)"
    using v' by (rule raised')
  have no_long: "\<not> includesStr (apiKey st) longKeyMessage" if "\<not> ?na"
    using includesStr_part [of "apiKey st" longKeyMessage] longKeyMessage_short long [OF that]
    by auto
  have n: "\<not> includesStr (apiKey st) ?m"
  proof (cases ?na)
    case True
    then obtain c where c: "c \<in> set (apiKey st)" "c > 127"
      using set_trim by blast
    have "\<not> includesStr (apiKey st) (nonAsciiMessage (js ''Authorization''))"
    proof
      assume "includesStr (apiKey st) (nonAsciiMessage (js ''Authorization''))"
      then have "c \<in> set (nonAsciiMessage (js ''Authorization''))"
        using includesStr_part c(1) by blast
      then have "c \<le> 127"
        using nonAsciiMessage_ascii by (simp add: list_all_iff)
      with c(2) show False
        by simp
    qed
    with True show ?thesis
      by simp
  next
    case False
    with no_long show ?thesis
      by simp
  qed
  have n': "?odd \<longrightarrow> \<not> includesStr (apiKey st) ?m'"
  proof (cases ?na)
    case True
    have "\<not> includesStr (apiKey st) (nonAsciiMessage_contentScript (js ''Authorization''))"
      if odd: ?odd
    proof
      assume "includesStr (apiKey st) (nonAsciiMessage_contentScript (js ''Authorization''))"
      then have part: "set (apiKey st) \<subseteq> set (nonAsciiMessage_contentScript (js ''Authorization''))"
        and len: "length (apiKey st) \<le> 162"
        using includesStr_part [of "apiKey st" "nonAsciiMessage_contentScript (js ''Authorization'')"]
          nonAsciiMessage_contentScript_length by simp_all
      from odd len obtain c where c: "c \<in> set (apiKey st)" "c > 127" "c \<noteq> 8220" "c \<noteq> 8221"
        "c \<noteq> 8230"
        by auto
      from c(1) part have "c \<in> set (nonAsciiMessage_contentScript (js ''Authorization''))"
        by blast
      then have "c \<le> 127 \<or> c = 8220 \<or> c = 8221 \<or> c = 8230"
        using nonAsciiMessage_contentScript_units by (simp add: list_all_iff)
      with c show False
        by simp
    qed
    with True show ?thesis
      by simp
  next
    case False
    with no_long show ?thesis
      by simp
  qed
  show ?thesis
  proof (intro exI conjI)
    show "summarizeWithOpenAI net log input st = (Inl (Error ?m), log)"
      by (rule r)
    show "summarizeWithOpenAI_contentScript net log input st = (Inl (Error ?m'), log)"
      by (rule r')
    show "?m = ?m"
      by (rule refl)
    show "?m' = ?m'"
      by (rule refl)
    show "\<not> includesStr (apiKey st) ?m"
      by (rule n)
    show "?odd \<longrightarrow> \<not> includesStr (apiKey st) ?m'"
      by (rule n')
  qed
qed

text \<open>
  The theorem on the key \<open>sk-abc\<dots>xyz\<close>, with the ellipsis U+2026, and on the key
  \<open>sk-abc\<close> followed by U+00E9.
\<close>

theorem credential_guard_witness:
  "8230 \<in> set (trim (apiKey stEllipsis)) \<and> (8230::nat) > 127 \<and>
   summarizeWithOpenAI netChatOk [] (js ''Stocks rose.'') stEllipsis =
     (Inl (Error (nonAsciiMessage (js ''Authorization''))), []) \<and>
   summarizeWithOpenAI_contentScript netChatOk [] (js ''Stocks rose.'') stEllipsis =
     (Inl (Error (nonAsciiMessage_contentScript (js ''Authorization''))), []) \<and>
   \<not> includesStr (apiKey stEllipsis) (nonAsciiMessage (js ''Authorization'')) \<and>
   233 \<in> set (trim (apiKey stAccent)) \<and> (233::nat) > 127 \<and>
   summarizeWithOpenAI_contentScript netChatOk [] (js ''Stocks rose.'') stAccent =
     (Inl (Error (nonAsciiMessage_contentScript (js ''Authorization''))), []) \<and>
   \<not> includesStr (apiKey stAccent) (nonAsciiMessage_contentScript (js ''Authorization''))"
proof -
  have m: "8230 \<in> set (trim (apiKey stEllipsis))"
    by code_simp
  have "(127::nat) < 8230"
    by simp
  with m have na: "\<exists>c \<in> set (trim (apiKey stEllipsis)). c > 127"
    by (rule bexI [rotated])
  then have h: "(\<exists>c \<in> set (trim (apiKey stEllipsis)). c > 127) \<or>
      length (trim (apiKey stEllipsis)) > 200"
    by (rule disjI1)
  have a: "233 \<in> set (trim (apiKey stAccent))"
    by code_simp
  have a0: "233 \<in> set (apiKey stAccent)"
    by code_simp
  have "(127::nat) < 233"
    by simp
  with a have na': "\<exists>c \<in> set (trim (apiKey stAccent)). c > 127"
    by (rule bexI [rotated])
  then have h': "(\<exists>c \<in> set (trim (apiKey stAccent)). c > 127) \<or>
      length (trim (apiKey stAccent)) > 200"
    by (rule disjI1)
  have "(233::nat) > 127 \<and> (233::nat) \<noteq> 8220 \<and> (233::nat) \<noteq> 8221 \<and> (233::nat) \<noteq> 8230"
    by simp
  with a0 have odd: "\<exists>c \<in> set (apiKey stAccent). c > 127 \<and> c \<noteq> 8220 \<and> c \<noteq> 8221 \<and> c \<noteq> 8230"
    by (rule bexI [rotated])
  have e: "summarizeWithOpenAI netChatOk [] (js ''Stocks rose.'') stEllipsis =
       (Inl (Error (nonAsciiMessage (js ''Authorization''))), []) \<and>
     summarizeWithOpenAI_contentScript netChatOk [] (js ''Stocks rose.'') stEllipsis =
       (Inl (Error (nonAsciiMessage_contentScript (js ''Authorization''))), []) \<and>
     \<not> includesStr (apiKey stEllipsis) (nonAsciiMessage (js ''Authorization''))"
    using credential_guard [OF h, of netChatOk "[]" "js ''Stocks rose.''"] na by simp
  have f: "summarizeWithOpenAI_contentScript netChatOk [] (js ''Stocks rose.'') stAccent =
       (Inl (Error (nonAsciiMessage_contentScript (js ''Authorization''))), []) \<and>
     \<not> includesStr (apiKey stAccent) (nonAsciiMessage_contentScript (js ''Authorization''))"
    using credential_guard [OF h', of netChatOk "[]" "js ''Stocks rose.''"] na' odd by simp
  from m a e f show ?thesis
    by simp
qed

text \<open>
  The claim as stated fails in two ways. A key whose only unit above 127 is white space at
  an end passes: \<open>trim\<close> removes the no-break space U+00A0 (160) before the header is
  checked, and the request is sent, by either copy. And in \<open>src/contentScript.js\<close> the key
  that is the ellipsis U+2026 alone is rejected with a message in which it occurs.
\<close>

theorem credential_guard_counterexample:
  "160 \<in> set (apiKey stPadded) \<and> (160::nat) > 127 \<and>
   summarizeWithOpenAI netChatOk [] (js ''Stocks rose.'') stPadded =
     (Inr (js ''Markets rallied.''),
      [apiRequest chatUrl (js ''sk-abc'')
         (chatBody stPadded (fst (buildPrompt (js ''Stocks rose.'') stPadded))
            (snd (buildPrompt (js ''Stocks rose.'') stPadded)))]) \<and>
   summarizeWithOpenAI_contentScript netChatOk [] (js ''Stocks rose.'') stPadded =
     (Inr (js ''Markets rallied.''),
      [apiRequest chatUrl (js ''sk-abc'')
         (chatBody stPadded (fst (buildPrompt (js ''Stocks rose.'') stPadded))
            (snd (buildPrompt (js ''Stocks rose.'') stPadded)))]) \<and>
   8230 \<in> set (apiKey stDots) \<and> (8230::nat) > 127 \<and>
   summarizeWithOpenAI_contentScript netChatOk [] (js ''Stocks rose.'') stDots =
     (Inl (Error (nonAsciiMessage_contentScript (js ''Authorization''))), []) \<and>
   includesStr (apiKey stDots) (nonAsciiMessage_contentScript (js ''Authorization''))"
proof -
  have p: "160 \<in> set (apiKey stPadded) \<and> (160::nat) > 127"
    by code_simp
  have b: "summarizeWithOpenAI netChatOk [] (js ''Stocks rose.'') stPadded =
     (Inr (js ''Markets rallied.''),
      [apiRequest chatUrl (js ''sk-abc'')
         (chatBody stPadded (fst (buildPrompt (js ''Stocks rose.'') stPadded))
            (snd (buildPrompt (js ''Stocks rose.'') stPadded)))])"
    by code_simp
  have c: "summarizeWithOpenAI_contentScript netChatOk [] (js ''Stocks rose.'') stPadded =
     (Inr (js ''Markets rallied.''),
      [apiRequest chatUrl (js ''sk-abc'')
         (chatBody stPadded (fst (buildPrompt (js ''Stocks rose.'') stPadded))
            (snd (buildPrompt (js ''Stocks rose.'') stPadded)))])"
    by code_simp
  have d: "8230 \<in> set (apiKey stDots) \<and> (8230::nat) > 127"
    by code_simp
  have r: "summarizeWithOpenAI_contentScript netChatOk [] (js ''Stocks rose.'') stDots =
     (Inl (Error (nonAsciiMessage_contentScript (js ''Authorization''))), [])"
    by code_simp
  have i: "includesStr (apiKey stDots) (nonAsciiMessage_contentScript (js ''Authorization''))"
    by code_simp
  from p b c d r i show ?thesis
    by (intro conjI) simp_all
qed


section \<open>The parse step\<close>

text \<open>
  C7 (as amended). In the pipeline of \<open>contentScript.js\<close>, the parse step \<open>tryParse\<close>
  returns the result of \<open>extractMainText\<close> when that result is not empty and has at least
  400 code units, and otherwise the result of \<open>htmlToText\<close> on the same HTML.
\<close>

theorem tryParse_fallback:
  "(extractMainText domParser html \<noteq> [] \<and> 400 \<le> length (extractMainText domParser html) \<longrightarrow>
      tryParse domParser html = extractMainText domParser html) \<and>
   (\<not> (extractMainText domParser html \<noteq> [] \<and> 400 \<le> length (extractMainText domParser html)) \<longrightarrow>
      tryParse domParser html = htmlToText html)"
  by (simp add: tryParse_def Let_def)

text \<open>
  The theorem on a document whose \<open>article\<close> element holds 500 letters, which is returned,
  and without a \<open>DOMParser\<close>, where the text comes from \<open>htmlToText\<close>.
\<close>

theorem tryParse_fallback_witness:
  "length (extractMainText (Some exampleDom) (js ''<article>x</article>'')) = 500 \<and>
   tryParse (Some exampleDom) (js ''<article>x</article>'') =
     extractMainText (Some exampleDom) (js ''<article>x</article>'') \<and>
   extractMainText (None :: (unit, nat) dom option) (js ''<p>Hello   world</p>'') = [] \<and>
   tryParse (None :: (unit, nat) dom option) (js ''<p>Hello   world</p>'') = js ''Hello world''"
proof -
  have a: "length (extractMainText (Some exampleDom) (js ''<article>x</article>'')) = 500"
    by code_simp
  then have b: "extractMainText (Some exampleDom) (js ''<article>x</article>'') \<noteq> []"
    by auto
  have c: "extractMainText (None :: (unit, nat) dom option) (js ''<p>Hello   world</p>'') = []"
    by (simp add: extractMainText_def)
  have d: "htmlToText (js ''<p>Hello   world</p>'') = js ''Hello world''"
    by code_simp
  from a b c d
    tryParse_fallback [of "Some exampleDom" "js ''<article>x</article>''"]
    tryParse_fallback [of "None :: (unit, nat) dom option" "js ''<p>Hello   world</p>''"]
  show ?thesis
    by simp
qed

text \<open>
  The claim fails for the parse step of \<open>background.js\<close>, which calls neither function:
  on a text without markup and of at most 100 units it finds no title, description or
  content and returns the empty text, where \<open>htmlToText\<close> returns the text.
\<close>

theorem tryParse_background_counterexample:
  "htmlToText (js ''Hello world'') = js ''Hello world'' \<and>
   tryParse (None :: (unit, nat) dom option) (js ''Hello world'') = js ''Hello world'' \<and>
   tryParse_background (js ''Hello world'') = []"
  by code_simp


end
